theory Spec2Isabelle
  imports Complex_Main
begin

section \<open>Geometry used by the arrows renderer\<close>

text \<open>
  Modelled from the spec: the \<open>Vec2\<close> class of \<open>~/domain/geometry\<close> is imported by
  \<open>ArrowsRenderer/index.tsx\<close> but is not part of the sources at hand. The spec describes
  it as an immutable 2D point \<open>(x, y)\<close> with the vector operations subtract, add,
  normalize, linear interpolation and scalar multiply. The coordinates are JavaScript
  numbers; they are idealised here as real numbers. The fields are called \<open>vx\<close> and
  \<open>vy\<close> for the source's \<open>x\<close> and \<open>y\<close>.
\<close>

record Vec2 =
  vx :: real
  vy :: real

text \<open>
  Modelled from the spec: the vector operations of \<open>Vec2\<close> that the renderer calls
  (\<open>add\<close>, \<open>sub\<close>, \<open>mul\<close>, \<open>distance\<close>), componentwise, and the Euclidean length.
\<close>

definition vzero :: Vec2 where
  "vzero = \<lparr>vx = 0, vy = 0\<rparr>"

definition vadd :: "Vec2 \<Rightarrow> Vec2 \<Rightarrow> Vec2" where
  "vadd a b = \<lparr>vx = vx a + vx b, vy = vy a + vy b\<rparr>"

definition vsub :: "Vec2 \<Rightarrow> Vec2 \<Rightarrow> Vec2" where
  "vsub a b = \<lparr>vx = vx a - vx b, vy = vy a - vy b\<rparr>"

definition vmul :: "Vec2 \<Rightarrow> real \<Rightarrow> Vec2" where
  "vmul a k = \<lparr>vx = vx a * k, vy = vy a * k\<rparr>"

definition vlength :: "Vec2 \<Rightarrow> real" where
  "vlength a = sqrt (vx a * vx a + vy a * vy a)"

definition distance :: "Vec2 \<Rightarrow> Vec2 \<Rightarrow> real" where
  "distance a b = vlength (vsub b a)"

text \<open>
  Modelled from the spec: \<open>linterp\<close> is the linear interpolation from the receiver
  towards \<open>to\<close>; at \<open>t = 0.5\<close> it is the midpoint.
\<close>

definition linterp :: "Vec2 \<Rightarrow> Vec2 \<Rightarrow> real \<Rightarrow> Vec2" where
  "linterp a to t = vadd a (vmul (vsub to a) t)"

text \<open>
  Modelled from the spec: \<open>normalize\<close> gives the unit direction of a vector. The spec
  lets the direction have zero magnitude when the two points coincide, so the zero
  vector is normalised to the zero vector; the test is written out, since it is not
  the division that decides it. The name carries a suffix, \<open>normalize\<close> being a
  constant of the library.
\<close>

definition normalize_vec :: "Vec2 \<Rightarrow> Vec2" where
  "normalize_vec a =
     (let l = vlength a
      in if l = 0 then vzero else \<lparr>vx = vx a / l, vy = vy a / l\<rparr>)"

text \<open>Modelled from the spec: \<open>isZero\<close> holds of the vector of zero magnitude.\<close>

definition isZero :: "Vec2 \<Rightarrow> bool" where
  "isZero a \<longleftrightarrow> vx a = 0 \<and> vy a = 0"

section \<open>The handle of an arrow\<close>

text \<open>
  \<open>arrowHandleFromPoints\<close> of \<open>ArrowsRenderer/index.tsx\<close>. The constant
  \<open>sizes.arrowHandleWidth\<close> of \<open>~/ui/vars\<close> is not part of the sources at hand and is
  the parameter \<open>arrowHandleWidth\<close>. The indices 1 and 2 are read only after the
  length test, as in the source.
\<close>

definition arrowHandleFromPoints :: "real \<Rightarrow> Vec2 list \<Rightarrow> (Vec2 \<times> Vec2) option" where
  "arrowHandleFromPoints arrowHandleWidth points =
     (if length points < 3 then None
      else
        let start = points ! 1;
            end = points ! 2;
            mid = linterp start end 0.5;
            direction = normalize_vec (vsub end start)
        in if isZero direction then None
           else
             let handleLength = arrowHandleWidth;
                 handleFrom = vsub mid (vmul direction (handleLength / 2));
                 handleTo = vadd mid (vmul direction (handleLength / 2))
             in Some (handleFrom, handleTo))"

section \<open>The flatten step of the arrows renderer\<close>

text \<open>
  Modelled from the spec: the types \<open>ConnectorArrow\<close> and \<open>SenderArrows\<close> of
  \<open>~/domain/layout\<close> are not part of the sources at hand; the source reads the fields
  \<open>startPoint\<close>, \<open>arrows\<close>, \<open>points\<close>, \<open>connector.position\<close> and \<open>connector.apIds\<close>.
  The spec describes a connector as a dot with a screen position and the set of
  access-point ids it fans out to. A JavaScript \<open>Map\<close> or \<open>Set\<close> is iterated by
  \<open>forEach\<close> in insertion order and holds no key twice: it is a list here, and
  \<open>wfProps\<close> below says that no key is repeated.
\<close>

record Connector =
  position :: Vec2
  apIds :: "string list"

record ConnectorArrow =
  points :: "Vec2 list"
  connector :: Connector

record SenderArrows =
  startPoint :: Vec2
  arrows :: "(string \<times> ConnectorArrow) list"

text \<open>
  \<open>Props\<close> of the renderer. \<open>apPositions\<close> is only read with \<open>get\<close>, so it is a
  partial function; \<open>arrows\<close> is iterated, so it keeps its order.
\<close>

record Props =
  arrows :: "(string \<times> SenderArrows) list"
  apPositions :: "string \<rightharpoonup> Vec2"

record ArrowData =
  points :: "Vec2 list"
  handle :: "(Vec2 \<times> Vec2) option"

text \<open>
  The arrays that \<open>manageArrows\<close> fills, as one state. The array \<open>arrowHandles\<close> of the
  source is declared and never written or read; it is left out.
\<close>

record Collections =
  startPlates :: "(string \<times> Vec2) list"
  arrows :: "(string \<times> ArrowData) list"
  connectors :: "(string \<times> Vec2) list"
  feets :: "(string \<times> (Vec2 \<times> Vec2)) list"

definition emptyCollections :: Collections where
  "emptyCollections = \<lparr>startPlates = [], arrows = [], connectors = [], feets = []\<rparr>"

text \<open>The body of the innermost \<open>forEach\<close>, over the access-point ids of a connector.\<close>

definition feetStep ::
  "(string \<rightharpoonup> Vec2) \<Rightarrow> string \<Rightarrow> Vec2 \<Rightarrow> Collections \<Rightarrow> string \<Rightarrow> Collections" where
  "feetStep apPos fromToId connectorPosition st apId =
     (let feetId = fromToId @ '' -> '' @ apId;
          apPosition = apPos apId
      in case apPosition of
           None \<Rightarrow> st
         | Some pos \<Rightarrow> st\<lparr>feets := feets st @ [(feetId, (connectorPosition, pos))]\<rparr>)"

text \<open>The body of the \<open>forEach\<close> over the receivers of one sender.\<close>

definition arrowStep ::
  "real \<Rightarrow> (string \<rightharpoonup> Vec2) \<Rightarrow> string \<Rightarrow> SenderArrows \<Rightarrow> Collections
     \<Rightarrow> string \<times> ConnectorArrow \<Rightarrow> Collections" where
  "arrowStep arrowHandleWidth apPos senderId senderArrows st entry =
     (let receiverId = fst entry;
          connectorArrow = snd entry;
          fromToId = senderId @ '' -> '' @ receiverId;
          allPoints = [startPoint senderArrows] @ ConnectorArrow.points connectorArrow;
          arrowHandle = arrowHandleFromPoints arrowHandleWidth allPoints;
          st1 = st\<lparr>Collections.arrows := Collections.arrows st
                  @ [(fromToId, \<lparr>ArrowData.points = allPoints, handle = arrowHandle\<rparr>)]\<rparr>;
          connectorPosition = position (connector connectorArrow);
          st2 = st1\<lparr>connectors := connectors st1 @ [(fromToId, connectorPosition)]\<rparr>
      in foldl (feetStep apPos fromToId connectorPosition) st2
           (apIds (connector connectorArrow)))"

text \<open>The body of the outer \<open>forEach\<close>, over the senders.\<close>

definition senderStep ::
  "real \<Rightarrow> (string \<rightharpoonup> Vec2) \<Rightarrow> Collections \<Rightarrow> string \<times> SenderArrows \<Rightarrow> Collections" where
  "senderStep arrowHandleWidth apPos st entry =
     (let senderId = fst entry;
          senderArrows = snd entry;
          st1 = st\<lparr>startPlates := startPlates st @ [(senderId, startPoint senderArrows)]\<rparr>
      in foldl (arrowStep arrowHandleWidth apPos senderId senderArrows) st1
           (SenderArrows.arrows senderArrows))"

definition flatten :: "real \<Rightarrow> Props \<Rightarrow> Collections" where
  "flatten arrowHandleWidth props =
     foldl (senderStep arrowHandleWidth (apPositions props)) emptyCollections
       (Props.arrows props)"

text \<open>
  The inputs that are maps and sets: no sender id twice, no receiver id twice under
  one sender, no access-point id twice in one connector.
\<close>

definition wfConnectorArrow :: "ConnectorArrow \<Rightarrow> bool" where
  "wfConnectorArrow ca \<longleftrightarrow> distinct (apIds (connector ca))"

definition wfSenderArrows :: "SenderArrows \<Rightarrow> bool" where
  "wfSenderArrows sa \<longleftrightarrow>
     distinct (map fst (SenderArrows.arrows sa)) \<and>
     list_all (\<lambda>e. wfConnectorArrow (snd e)) (SenderArrows.arrows sa)"

definition wfProps :: "Props \<Rightarrow> bool" where
  "wfProps props \<longleftrightarrow>
     distinct (map fst (Props.arrows props)) \<and>
     list_all (\<lambda>e. wfSenderArrows (snd e)) (Props.arrows props)"

text \<open>
  Whether an id contains the two characters \<open>->\<close> in a row. A key is glued from ids
  with \<open>'' -> ''\<close> between them, so an id that contains these characters can make two
  different pairs of ids give one key.
\<close>

fun hasArrowToken :: "string \<Rightarrow> bool" where
  "hasArrowToken (a # b # cs) \<longleftrightarrow> (a = CHR ''-'' \<and> b = CHR ''>'') \<or> hasArrowToken (b # cs)"
| "hasArrowToken _ \<longleftrightarrow> False"

definition plainSenders :: "Props \<Rightarrow> bool" where
  "plainSenders props \<longleftrightarrow> list_all (\<lambda>e. \<not> hasArrowToken (fst e)) (Props.arrows props)"

definition plainReceivers :: "Props \<Rightarrow> bool" where
  "plainReceivers props \<longleftrightarrow>
     list_all (\<lambda>e. list_all (\<lambda>r. \<not> hasArrowToken (fst r)) (SenderArrows.arrows (snd e)))
       (Props.arrows props)"

section \<open>The scene, the keyed join and one pass of the renderer\<close>

text \<open>
  The part of the document below the mount point that the renderer reads and writes.
  The component renders four group elements, in this order: \<open>arrows\<close>, \<open>start-plates\<close>,
  \<open>feets\<close>, \<open>connectors\<close>. Every enter function appends a \<open>g\<close> element whose class
  attribute is the key \<open>d[0]\<close> of the datum bound to it; a node is only ever rebound
  to a datum of the same key, so the class of a drawn node is the key of its datum.
  The \<open>path\<close>, \<open>line\<close> and \<open>circle\<close> elements inside a drawn node are no \<open>g\<close> elements
  and carry no class that the four selectors of the source match; they are left out.
  A node has an identity (\<open>nodeId\<close>), since the source looks up its four groups first
  and then changes them one after the other.
\<close>

datatype Datum =
    PlateDatum Vec2
  | ArrowDatum ArrowData
  | ConnectorDatum Vec2
  | FeetDatum "Vec2 \<times> Vec2"

datatype GNode = GNode (nodeId: nat) (nodeClass: string) (nodeDatum: Datum) (nodeKids: "GNode list")

datatype GroupName = ArrowsGroup | StartPlatesGroup | FeetsGroup | ConnectorsGroup

record Scene =
  arrowsKids :: "GNode list"
  startPlatesKids :: "GNode list"
  feetsKids :: "GNode list"
  connectorsKids :: "GNode list"
  nextId :: nat

text \<open>The scene that the component renders before the first pass: four empty groups.\<close>

definition emptyScene :: Scene where
  "emptyScene =
     \<lparr>arrowsKids = [], startPlatesKids = [], feetsKids = [], connectorsKids = [], nextId = 0\<rparr>"

text \<open>The \<open>g\<close> elements inside a node, and inside a list of nodes, in document order.\<close>

fun descendants :: "GNode \<Rightarrow> GNode list" where
  "descendants (GNode i c d ks) = concat (map (\<lambda>k. k # descendants k) ks)"

definition flatNodes :: "GNode list \<Rightarrow> GNode list" where
  "flatNodes ks = concat (map (\<lambda>k. k # descendants k) ks)"

text \<open>
  A class selector matches an element when its name is one of the tokens of the class
  attribute, that is of the attribute split at white space.
\<close>

definition isWs :: "char \<Rightarrow> bool" where
  "isWs c \<longleftrightarrow> c = CHR '' '' \<or> c = CHR 0x09 \<or> c = CHR 0x0A \<or> c = CHR 0x0C \<or> c = CHR 0x0D"

function classTokens :: "string \<Rightarrow> string list" where
  "classTokens [] = []"
| "classTokens (c # cs) =
     (if isWs c then classTokens cs
      else (c # takeWhile (\<lambda>x. \<not> isWs x) cs) # classTokens (dropWhile (\<lambda>x. \<not> isWs x) cs))"
  by pat_completeness auto
termination
  by (relation "measure length") (auto simp: length_dropWhile_le less_Suc_eq_le)

text \<open>
  What a selection of the source refers to: one of the four group elements, or a drawn
  node.
\<close>

datatype Target = GroupT GroupName | NodeT nat

text \<open>
  The elements below the mount point that carry a class, in document order, each with
  its class attribute.
\<close>

definition docOrder :: "Scene \<Rightarrow> (string \<times> Target) list" where
  "docOrder g =
     (''arrows'', GroupT ArrowsGroup)
       # map (\<lambda>n. (nodeClass n, NodeT (nodeId n))) (flatNodes (arrowsKids g))
     @ (''start-plates'', GroupT StartPlatesGroup)
       # map (\<lambda>n. (nodeClass n, NodeT (nodeId n))) (flatNodes (startPlatesKids g))
     @ (''feets'', GroupT FeetsGroup)
       # map (\<lambda>n. (nodeClass n, NodeT (nodeId n))) (flatNodes (feetsKids g))
     @ (''connectors'', GroupT ConnectorsGroup)
       # map (\<lambda>n. (nodeClass n, NodeT (nodeId n))) (flatNodes (connectorsKids g))"

text \<open>
  \<open>rootGroup.select('.name')\<close>: the first element below the mount point, in document
  order, whose class attribute has the token \<open>name\<close>; none gives the empty selection.
\<close>

definition selectClass :: "string \<Rightarrow> Scene \<Rightarrow> Target option" where
  "selectClass name g =
     map_option snd (find (\<lambda>e. name \<in> set (classTokens (fst e))) (docOrder g))"

text \<open>
  \<open>selectAll('g')\<close> on a selection: every \<open>g\<close> element inside the selected element. A
  node that is no longer in the document has been removed with all that is inside it
  and is not looked at again; its selection is taken as empty.
\<close>

definition groupKids :: "GroupName \<Rightarrow> Scene \<Rightarrow> GNode list" where
  "groupKids n g =
     (case n of
        ArrowsGroup \<Rightarrow> arrowsKids g
      | StartPlatesGroup \<Rightarrow> startPlatesKids g
      | FeetsGroup \<Rightarrow> feetsKids g
      | ConnectorsGroup \<Rightarrow> connectorsKids g)"

definition allNodes :: "Scene \<Rightarrow> GNode list" where
  "allNodes g =
     flatNodes (arrowsKids g) @ flatNodes (startPlatesKids g)
       @ flatNodes (feetsKids g) @ flatNodes (connectorsKids g)"

definition selectAllG :: "Target \<Rightarrow> Scene \<Rightarrow> GNode list" where
  "selectAllG t g =
     (case t of
        GroupT n \<Rightarrow> flatNodes (groupKids n g)
      | NodeT i \<Rightarrow>
          (case find (\<lambda>n. nodeId n = i) (allNodes g) of
             None \<Rightarrow> []
           | Some n \<Rightarrow> descendants n))"

text \<open>
  Modelled from the spec: the join \<open>selection.data(data, key).join(enter, update)\<close> is
  the rendering library's and is not part of the sources at hand. The spec gives it as:
  from the previous keyed nodes and the next keyed data, created = next - previous,
  updated = next \<inter> previous, removed = previous - next. The order in which the library
  leaves the nodes of a group is not described; created nodes are put last here.
\<close>

definition joinEnter :: "GNode list \<Rightarrow> (string \<times> Datum) list \<Rightarrow> (string \<times> Datum) list" where
  "joinEnter sel next = filter (\<lambda>d. fst d \<notin> set (map nodeClass sel)) next"

definition joinUpdate :: "GNode list \<Rightarrow> (string \<times> Datum) list \<Rightarrow> GNode list" where
  "joinUpdate sel next = filter (\<lambda>n. nodeClass n \<in> set (map fst next)) sel"

definition joinExit :: "GNode list \<Rightarrow> (string \<times> Datum) list \<Rightarrow> GNode list" where
  "joinExit sel next = filter (\<lambda>n. nodeClass n \<notin> set (map fst next)) sel"

text \<open>
  What the join leaves of a selected node: nothing when it is removed, and else the
  node bound to the next datum of its key, with what the join leaves of the nodes inside
  it, which are in the selection as well.
\<close>

fun rebind :: "(string \<times> Datum) list \<Rightarrow> GNode \<Rightarrow> GNode list" where
  "rebind next (GNode i c d ks) =
     (case map_of next c of
        None \<Rightarrow> []
      | Some d' \<Rightarrow> [GNode i c d' (concat (map (rebind next) ks))])"

text \<open>
  The created nodes: \<open>enter.append('g').attr('class', d => d[0])\<close>, one new node for each
  datum, with the key as its class.
\<close>

fun newNodes :: "nat \<Rightarrow> (string \<times> Datum) list \<Rightarrow> GNode list" where
  "newNodes fresh [] = []"
| "newNodes fresh (e # es) = GNode fresh (fst e) (snd e) [] # newNodes (Suc fresh) es"

text \<open>The \<open>g\<close> elements inside the joined element after the join.\<close>

definition joinKids :: "(string \<times> Datum) list \<Rightarrow> nat \<Rightarrow> GNode list \<Rightarrow> GNode list" where
  "joinKids next fresh ks =
     concat (map (rebind next) ks) @ newNodes fresh (joinEnter (flatNodes ks) next)"

text \<open>Changing what is inside the node of a given identity, wherever it is.\<close>

fun atNode :: "nat \<Rightarrow> (GNode list \<Rightarrow> GNode list) \<Rightarrow> GNode \<Rightarrow> GNode" where
  "atNode i f (GNode j c d ks) =
     (if j = i then GNode j c d (f ks) else GNode j c d (map (atNode i f) ks))"

definition joinAt :: "Target \<Rightarrow> (string \<times> Datum) list \<Rightarrow> Scene \<Rightarrow> Scene" where
  "joinAt t next g =
     (let f = joinKids next (nextId g);
          g' = (case t of
                  GroupT ArrowsGroup \<Rightarrow> g\<lparr>arrowsKids := f (arrowsKids g)\<rparr>
                | GroupT StartPlatesGroup \<Rightarrow> g\<lparr>startPlatesKids := f (startPlatesKids g)\<rparr>
                | GroupT FeetsGroup \<Rightarrow> g\<lparr>feetsKids := f (feetsKids g)\<rparr>
                | GroupT ConnectorsGroup \<Rightarrow> g\<lparr>connectorsKids := f (connectorsKids g)\<rparr>
                | NodeT i \<Rightarrow>
                    g\<lparr>arrowsKids := map (atNode i f) (arrowsKids g),
                      startPlatesKids := map (atNode i f) (startPlatesKids g),
                      feetsKids := map (atNode i f) (feetsKids g),
                      connectorsKids := map (atNode i f) (connectorsKids g)\<rparr>)
      in g'\<lparr>nextId := nextId g + length next\<rparr>)"

text \<open>A join on a selection; on the empty selection nothing is joined.\<close>

definition joinOn :: "Target option \<Rightarrow> (string \<times> Datum) list \<Rightarrow> Scene \<Rightarrow> Scene" where
  "joinOn sel next g = (case sel of None \<Rightarrow> g | Some t \<Rightarrow> joinAt t next g)"

text \<open>
  \<open>manageArrows\<close>: the four groups are looked up by class in the scene as it is given,
  the collections are flattened, and the four joins are made in the order of the
  source. The element \<open>g\<close> is the scene it is given; the result is the scene it leaves.
\<close>

definition manageArrows :: "real \<Rightarrow> Props \<Rightarrow> Scene \<Rightarrow> Scene" where
  "manageArrows arrowHandleWidth props g =
     (let startPlatesGroup = selectClass ''start-plates'' g;
          arrowsGroup = selectClass ''arrows'' g;
          connectorsGroup = selectClass ''connectors'' g;
          feetsGroup = selectClass ''feets'' g;
          c = flatten arrowHandleWidth props;
          g1 = joinOn startPlatesGroup (map (\<lambda>d. (fst d, PlateDatum (snd d))) (startPlates c)) g;
          g2 = joinOn arrowsGroup (map (\<lambda>d. (fst d, ArrowDatum (snd d))) (Collections.arrows c)) g1;
          g3 = joinOn connectorsGroup (map (\<lambda>d. (fst d, ConnectorDatum (snd d))) (connectors c)) g2
      in joinOn feetsGroup (map (\<lambda>d. (fst d, FeetDatum (snd d))) (feets c)) g3)"

text \<open>
  The keys drawn in each of the four groups: the classes of the \<open>g\<close> elements inside the
  group element, for start-plates, arrows, connectors and feet.
\<close>

definition groupKeys :: "GroupName \<Rightarrow> Scene \<Rightarrow> string set" where
  "groupKeys n g = set (map nodeClass (flatNodes (groupKids n g)))"

definition sceneKeys :: "Scene \<Rightarrow> string set \<times> string set \<times> string set \<times> string set" where
  "sceneKeys g =
     (groupKeys StartPlatesGroup g, groupKeys ArrowsGroup g,
      groupKeys ConnectorsGroup g, groupKeys FeetsGroup g)"

text \<open>
  The keys of the four flattened collections, in the same order.
\<close>

definition collectionKeys :: "Collections \<Rightarrow> string set \<times> string set \<times> string set \<times> string set" where
  "collectionKeys c =
     (set (map fst (startPlates c)), set (map fst (Collections.arrows c)),
      set (map fst (connectors c)), set (map fst (feets c)))"

text \<open>
  A class that would be taken for one of the groups that are looked up behind the
  arrows group, and the scenes and collections without such a class. In a regular
  scene every drawn node lies directly in its group.
\<close>

definition groupClass :: "string \<Rightarrow> bool" where
  "groupClass cls \<longleftrightarrow>
     ''start-plates'' \<in> set (classTokens cls) \<or> ''feets'' \<in> set (classTokens cls)
       \<or> ''connectors'' \<in> set (classTokens cls)"

definition regularNodes :: "GNode list \<Rightarrow> bool" where
  "regularNodes ks \<longleftrightarrow> list_all (\<lambda>n. nodeKids n = [] \<and> \<not> groupClass (nodeClass n)) ks"

definition regularScene :: "Scene \<Rightarrow> bool" where
  "regularScene g \<longleftrightarrow>
     regularNodes (arrowsKids g) \<and> regularNodes (startPlatesKids g)
       \<and> regularNodes (feetsKids g) \<and> regularNodes (connectorsKids g)"

definition classSafe :: "Collections \<Rightarrow> bool" where
  "classSafe c \<longleftrightarrow>
     list_all (\<lambda>d. \<not> groupClass (fst d)) (startPlates c)
       \<and> list_all (\<lambda>d. \<not> groupClass (fst d)) (Collections.arrows c)
       \<and> list_all (\<lambda>d. \<not> groupClass (fst d)) (connectors c)
       \<and> list_all (\<lambda>d. \<not> groupClass (fst d)) (feets c)"

text \<open>
  The nodes that the four joins of a pass remove, each taken from the scene as it is
  when its join is made.
\<close>

definition exitOn :: "Target option \<Rightarrow> (string \<times> Datum) list \<Rightarrow> Scene \<Rightarrow> GNode list" where
  "exitOn sel next g = (case sel of None \<Rightarrow> [] | Some t \<Rightarrow> joinExit (selectAllG t g) next)"

definition passExits ::
  "real \<Rightarrow> Props \<Rightarrow> Scene \<Rightarrow> GNode list \<times> GNode list \<times> GNode list \<times> GNode list" where
  "passExits arrowHandleWidth props g =
     (let startPlatesGroup = selectClass ''start-plates'' g;
          arrowsGroup = selectClass ''arrows'' g;
          connectorsGroup = selectClass ''connectors'' g;
          feetsGroup = selectClass ''feets'' g;
          c = flatten arrowHandleWidth props;
          plates = map (\<lambda>d. (fst d, PlateDatum (snd d))) (startPlates c);
          arrs = map (\<lambda>d. (fst d, ArrowDatum (snd d))) (Collections.arrows c);
          conns = map (\<lambda>d. (fst d, ConnectorDatum (snd d))) (connectors c);
          fts = map (\<lambda>d. (fst d, FeetDatum (snd d))) (feets c);
          g1 = joinOn startPlatesGroup plates g;
          g2 = joinOn arrowsGroup arrs g1;
          g3 = joinOn connectorsGroup conns g2
      in (exitOn startPlatesGroup plates g, exitOn arrowsGroup arrs g1,
          exitOn connectorsGroup conns g2, exitOn feetsGroup fts g3))"

definition exitKeys ::
  "GNode list \<times> GNode list \<times> GNode list \<times> GNode list \<Rightarrow>
     string set \<times> string set \<times> string set \<times> string set" where
  "exitKeys x =
     (case x of (a, b, c, d) \<Rightarrow>
        (set (map nodeClass a), set (map nodeClass b), set (map nodeClass c), set (map nodeClass d)))"

text \<open>\<open>Map.delete\<close> of a sender id on the arrows map of the props.\<close>

definition removeSender :: "string \<Rightarrow> Props \<Rightarrow> Props" where
  "removeSender s props = props\<lparr>Props.arrows := filter (\<lambda>e. fst e \<noteq> s) (Props.arrows props)\<rparr>"

section \<open>What the flatten step computes, entry by entry\<close>

text \<open>
  The entries that one connector, one receiver and one sender contribute. The loops of
  \<open>flatten\<close> are shown below to append exactly these, in order.
\<close>

definition feetEntries ::
  "(string \<rightharpoonup> Vec2) \<Rightarrow> string \<Rightarrow> Vec2 \<Rightarrow> string list \<Rightarrow> (string \<times> (Vec2 \<times> Vec2)) list" where
  "feetEntries apPos fromToId cp ids =
     concat (map (\<lambda>apId. case apPos apId of
                            None \<Rightarrow> []
                          | Some pos \<Rightarrow> [(fromToId @ '' -> '' @ apId, (cp, pos))]) ids)"

definition arrowEntry ::
  "real \<Rightarrow> string \<Rightarrow> SenderArrows \<Rightarrow> string \<times> ConnectorArrow \<Rightarrow> string \<times> ArrowData" where
  "arrowEntry w s sa e =
     (s @ '' -> '' @ fst e,
      \<lparr>ArrowData.points = startPoint sa # ConnectorArrow.points (snd e),
       handle = arrowHandleFromPoints w (startPoint sa # ConnectorArrow.points (snd e))\<rparr>)"

definition connectorEntry :: "string \<Rightarrow> string \<times> ConnectorArrow \<Rightarrow> string \<times> Vec2" where
  "connectorEntry s e = (s @ '' -> '' @ fst e, position (connector (snd e)))"

definition receiverFeet ::
  "(string \<rightharpoonup> Vec2) \<Rightarrow> string \<Rightarrow> string \<times> ConnectorArrow \<Rightarrow> (string \<times> (Vec2 \<times> Vec2)) list" where
  "receiverFeet apPos s e =
     feetEntries apPos (s @ '' -> '' @ fst e) (position (connector (snd e)))
       (apIds (connector (snd e)))"

section \<open>The access-point badge\<close>

text \<open>
  Modelled from the spec: the enums \<open>IPProtocol\<close> and \<open>L7Kind\<close> of \<open>~/domain/hubble\<close>
  are not part of the sources at hand. A member of a TypeScript enum is a number or a
  string when the program runs, and the source tests \<open>props.l7Protocol\<close> for
  truthiness, so a member is its value here. The three members that the source names
  are parameters.
\<close>

datatype EnumValue = NumV int | StrV string

fun truthy :: "EnumValue \<Rightarrow> bool" where
  "truthy (NumV n) \<longleftrightarrow> n \<noteq> 0"
| "truthy (StrV s) \<longleftrightarrow> s \<noteq> []"

record HubbleEnums =
  ICMPv4 :: EnumValue
  ICMPv6 :: EnumValue
  Unknown :: EnumValue

text \<open>
  The props that the render reads. \<open>verdicts\<close> is never read, and \<open>connectorRef\<close> only
  by the layout effect, which draws nothing. An absent \<open>l7Protocol\<close> is \<open>None\<close>.
\<close>

record AccessPointProps =
  port :: int
  l4Protocol :: EnumValue
  l7Protocol :: "EnumValue option"

text \<open>
  The rendered tree. A \<open>Div\<close> carries the name of its style class and the argument of
  \<open>getTestAttributes\<close>; the texts that helpers outside the sources at hand compute
  (\<open>IPProtocol[...]\<close>, \<open>l7KindToString\<close>, \<open>protocol.toString\<close>) carry the value
  they are computed from.
\<close>

datatype TestAttr = NoTestAttr | TestId string | AccessPointId EnumValue int

datatype Node =
    Div string TestAttr "Node list"
  | Img string
  | PortText int
  | L4Text EnumValue
  | L7Text EnumValue
  | Text string

definition showPort :: "HubbleEnums \<Rightarrow> AccessPointProps \<Rightarrow> bool" where
  "showPort enums props \<longleftrightarrow>
     l4Protocol props \<noteq> ICMPv4 enums \<and> l4Protocol props \<noteq> ICMPv6 enums"

definition showL7Protocol :: "HubbleEnums \<Rightarrow> AccessPointProps \<Rightarrow> bool" where
  "showL7Protocol enums props \<longleftrightarrow>
     l7Protocol props \<noteq> None \<and> l7Protocol props \<noteq> Some (Unknown enums)"

text \<open>
  \<open>{showPort && (...)}\<close>: \<open>false\<close> draws nothing, the fragment draws its two children.
\<close>

definition portPart :: "HubbleEnums \<Rightarrow> AccessPointProps \<Rightarrow> Node list" where
  "portPart enums props =
     (if showPort enums props
      then [Div ''port'' (TestId ''port'') [PortText (port props)], Div ''dot'' NoTestAttr []]
      else [])"

text \<open>
  \<open>{props.l7Protocol && showL7Protocol && (...)}\<close>: \<open>&&\<close> gives its left operand when
  that is falsy. An absent value, an empty string and \<open>false\<close> draw nothing; the
  number zero is drawn as the text \<open>0\<close>.
\<close>

definition l7Part :: "HubbleEnums \<Rightarrow> AccessPointProps \<Rightarrow> Node list" where
  "l7Part enums props =
     (case l7Protocol props of
        None \<Rightarrow> []
      | Some v \<Rightarrow>
          if \<not> truthy v then (case v of NumV n \<Rightarrow> [Text ''0''] | StrV s \<Rightarrow> [])
          else if \<not> showL7Protocol enums props then []
          else [Div ''dot'' NoTestAttr [],
                Div ''protocol'' (TestId ''proto-l7'') [L7Text v]])"

definition AccessPoint :: "HubbleEnums \<Rightarrow> AccessPointProps \<Rightarrow> Node" where
  "AccessPoint enums props =
     Div ''accessPoint'' (AccessPointId (l4Protocol props) (port props))
       [Div ''icons'' NoTestAttr
          [Div ''circle'' NoTestAttr [Img ''icons/misc/access-point.svg''],
           Div ''arrow'' NoTestAttr [Img ''icons/misc/ap-arrow-violet.svg'']],
        Div ''data'' NoTestAttr
          (portPart enums props
           @ [Div ''protocol'' (TestId ''proto-l4'') [L4Text (l4Protocol props)]]
           @ l7Part enums props)]"

text \<open>Whether an element with the given test id is in a rendered tree.\<close>

fun hasTestId :: "string \<Rightarrow> Node \<Rightarrow> bool" where
  "hasTestId t (Div c a ns) \<longleftrightarrow> a = TestId t \<or> list_ex (hasTestId t) ns"
| "hasTestId t _ \<longleftrightarrow> False"

section \<open>Inputs used in the examples\<close>

definition plainConnectorArrow :: "string list \<Rightarrow> ConnectorArrow" where
  "plainConnectorArrow ids =
     \<lparr>ConnectorArrow.points = [], connector = \<lparr>position = vzero, apIds = ids\<rparr>\<rparr>"

text \<open>Two senders whose ids and receiver ids glue to the same key \<open>a -> b -> c\<close>.\<close>

definition collidingProps :: Props where
  "collidingProps =
     \<lparr>Props.arrows =
        [(''a'', \<lparr>startPoint = vzero,
                 SenderArrows.arrows = [(''b -> c'', plainConnectorArrow [])]\<rparr>),
         (''a -> b'', \<lparr>startPoint = vzero,
                      SenderArrows.arrows = [(''c'', plainConnectorArrow [])]\<rparr>)],
      apPositions = Map.empty\<rparr>"

text \<open>
  One sender, two receivers whose ids and access-point ids glue to the same key
  \<open>a -> b -> c -> d\<close>; both access points have a position.
\<close>

definition collidingFeetProps :: Props where
  "collidingFeetProps =
     \<lparr>Props.arrows =
        [(''a'', \<lparr>startPoint = vzero,
                 SenderArrows.arrows =
                   [(''b'', plainConnectorArrow [''c -> d'']),
                    (''b -> c'', plainConnectorArrow [''d''])]\<rparr>)],
      apPositions = [''c -> d'' \<mapsto> \<lparr>vx = 1, vy = 1\<rparr>, ''d'' \<mapsto> \<lparr>vx = 2, vy = 2\<rparr>]\<rparr>"

text \<open>
  A well-formed input with plain ids: sender \<open>S\<close> with receiver \<open>R\<close>, whose connector
  fans out to the access points \<open>A\<close> and \<open>B\<close>, of which only \<open>A\<close> has a position;
  a second sender \<open>T\<close> with no receivers.
\<close>

definition sampleConnectorArrow :: ConnectorArrow where
  "sampleConnectorArrow =
     \<lparr>ConnectorArrow.points = [\<lparr>vx = 0, vy = 0\<rparr>, \<lparr>vx = 10, vy = 0\<rparr>, \<lparr>vx = 20, vy = 0\<rparr>],
      connector = \<lparr>position = \<lparr>vx = 20, vy = 0\<rparr>, apIds = [''A'', ''B'']\<rparr>\<rparr>"

definition sampleSenderArrows :: SenderArrows where
  "sampleSenderArrows =
     \<lparr>startPoint = \<lparr>vx = 0, vy = 0\<rparr>, SenderArrows.arrows = [(''R'', sampleConnectorArrow)]\<rparr>"

definition sampleProps :: Props where
  "sampleProps =
     \<lparr>Props.arrows =
        [(''S'', sampleSenderArrows),
         (''T'', \<lparr>startPoint = \<lparr>vx = 0, vy = 50\<rparr>, SenderArrows.arrows = []\<rparr>)],
      apPositions = [''A'' \<mapsto> \<lparr>vx = 30, vy = 5\<rparr>]\<rparr>"

text \<open>
  A well-formed input with plain ids whose sender id is the class name of the feets
  group: sender \<open>feets\<close> with receiver \<open>R\<close>, whose connector fans out to the access point
  \<open>A\<close>, which has a position.
\<close>

definition feetsSenderProps :: Props where
  "feetsSenderProps =
     \<lparr>Props.arrows =
        [(''feets'', \<lparr>startPoint = vzero,
                     SenderArrows.arrows = [(''R'', plainConnectorArrow [''A''])]\<rparr>)],
      apPositions = [''A'' \<mapsto> \<lparr>vx = 1, vy = 1\<rparr>]\<rparr>"

text \<open>
  The scene after one pass and after two passes with \<open>feetsSenderProps\<close>, from the
  scene of four empty groups.
\<close>

definition feetsScene1 :: Scene where
  "feetsScene1 =
     \<lparr>arrowsKids = [GNode 1 ''feets -> R'' (ArrowDatum \<lparr>ArrowData.points = [vzero], handle = None\<rparr>) []],
      startPlatesKids = [GNode 0 ''feets'' (PlateDatum vzero) []],
      feetsKids = [GNode 3 ''feets -> R -> A'' (FeetDatum (vzero, \<lparr>vx = 1, vy = 1\<rparr>)) []],
      connectorsKids = [GNode 2 ''feets -> R'' (ConnectorDatum vzero) []],
      nextId = 4\<rparr>"

definition feetsScene2 :: Scene where
  "feetsScene2 =
     \<lparr>arrowsKids = [GNode 1 ''feets -> R'' (ArrowDatum \<lparr>ArrowData.points = [vzero], handle = None\<rparr>)
                      [GNode 7 ''feets -> R -> A'' (FeetDatum (vzero, \<lparr>vx = 1, vy = 1\<rparr>)) []]],
      startPlatesKids = [GNode 0 ''feets'' (PlateDatum vzero) []],
      feetsKids = [GNode 3 ''feets -> R -> A'' (FeetDatum (vzero, \<lparr>vx = 1, vy = 1\<rparr>)) []],
      connectorsKids = [GNode 2 ''feets -> R'' (ConnectorDatum vzero) []],
      nextId = 8\<rparr>"

text \<open>
  Two senders with plain ids, one of them with the class name of the start-plates
  group as its id and with one receiver, and the scene after one pass with them.
\<close>

definition platesSenderProps :: Props where
  "platesSenderProps =
     \<lparr>Props.arrows =
        [(''x'', \<lparr>startPoint = vzero, SenderArrows.arrows = []\<rparr>),
         (''start-plates'', \<lparr>startPoint = vzero,
                            SenderArrows.arrows = [(''R'', plainConnectorArrow [])]\<rparr>)],
      apPositions = Map.empty\<rparr>"

definition platesScene1 :: Scene where
  "platesScene1 =
     \<lparr>arrowsKids = [GNode 2 ''start-plates -> R''
                      (ArrowDatum \<lparr>ArrowData.points = [vzero], handle = None\<rparr>) []],
      startPlatesKids = [GNode 0 ''x'' (PlateDatum vzero) [],
                         GNode 1 ''start-plates'' (PlateDatum vzero) []],
      feetsKids = [],
      connectorsKids = [GNode 3 ''start-plates -> R'' (ConnectorDatum vzero) []],
      nextId = 4\<rparr>"

text \<open>Enum values for the examples: two numeric protocol members and a string sentinel.\<close>

definition sampleEnums :: HubbleEnums where
  "sampleEnums = \<lparr>ICMPv4 = NumV 3, ICMPv6 = NumV 4, Unknown = StrV ''unknown''\<rparr>"

section \<open>Facts about the geometry\<close>

lemma vlength_zero_iff: "vlength a = 0 \<longleftrightarrow> isZero a"
  by (simp add: vlength_def isZero_def sum_power2_eq_zero_iff power2_eq_square[symmetric])

lemma isZero_vsub: "isZero (vsub b a) \<longleftrightarrow> a = b"
  by (auto simp: isZero_def vsub_def)

lemma vlength_normalize: 
  assumes nz: "\<not> isZero a" shows "vlength (normalize_vec a) = 1"
proof -
  define l where "l = vlength a"
  have l0: "l \<noteq> 0" using nz by (simp add: l_def vlength_zero_iff)
  have sq: "l * l = vx a * vx a + vy a * vy a"
    unfolding l_def vlength_def by (simp add: power2_eq_square[symmetric])
  have n: "normalize_vec a = \<lparr>vx = vx a / l, vy = vy a / l\<rparr>"
    using l0 by (simp add: normalize_vec_def Let_def l_def)
  have "vx a / l * (vx a / l) + vy a / l * (vy a / l) = (vx a * vx a + vy a * vy a) / (l * l)"
    by (simp add: add_divide_distrib)
  also have "\<dots> = (l * l) / (l * l)" by (simp only: sq)
  also have "\<dots> = 1" using l0 by simp
  finally have "vlength \<lparr>vx = vx a / l, vy = vy a / l\<rparr> = 1"
    by (simp add: vlength_def)
  then show ?thesis by (simp only: n)
qed

lemma isZero_normalize: "isZero (normalize_vec a) \<longleftrightarrow> isZero a"
proof
  assume "isZero a" then show "isZero (normalize_vec a)"
    by (simp add: normalize_vec_def Let_def vlength_zero_iff isZero_def vzero_def)
next
  assume z: "isZero (normalize_vec a)"
  show "isZero a"
  proof (rule ccontr)
    assume "\<not> isZero a"
    then have "vlength (normalize_vec a) = 1" by (rule vlength_normalize)
    moreover have "vlength (normalize_vec a) = 0" using z by (simp add: vlength_zero_iff)
    ultimately show False by simp
  qed
qed

lemma handle_Some:
  assumes "3 \<le> length ps" "ps ! 1 \<noteq> ps ! 2"
  shows "arrowHandleFromPoints W ps =
     Some (vsub (linterp (ps ! 1) (ps ! 2) 0.5) (vmul (normalize_vec (vsub (ps ! 2) (ps ! 1))) (W / 2)),
           vadd (linterp (ps ! 1) (ps ! 2) 0.5) (vmul (normalize_vec (vsub (ps ! 2) (ps ! 1))) (W / 2)))"
  using assms by (auto simp: arrowHandleFromPoints_def Let_def isZero_normalize isZero_vsub)

lemma vlength_vmul: "vlength (vmul a k) = \<bar>k\<bar> * vlength a"
proof -
  have "vx a * k * (vx a * k) + vy a * k * (vy a * k) = k\<^sup>2 * (vx a * vx a + vy a * vy a)"
    by (simp add: power2_eq_square algebra_simps)
  then show ?thesis by (simp add: vlength_def vmul_def real_sqrt_mult)
qed

lemma seg_mid: "linterp (vsub m d) (vadd m d) 0.5 = m"
  by (simp add: linterp_def vadd_def vsub_def vmul_def)

lemma seg_diff: "vsub (vadd m (vmul u (W/2))) (vsub m (vmul u (W/2))) = vmul u W"
  by (simp add: vadd_def vsub_def vmul_def)

section \<open>The loops of the flatten step in closed form\<close>


lemma foldl_feetStep:
  "foldl (feetStep apPos k cp) st ids = st\<lparr>feets := feets st @ feetEntries apPos k cp ids\<rparr>"
  by (induction ids arbitrary: st) (auto simp: feetStep_def feetEntries_def split: option.splits)


lemma foldl_arrowStep:
  "foldl (arrowStep W apPos s sa) st es =
     st\<lparr>Collections.arrows := Collections.arrows st @ map (arrowEntry W s sa) es,
        connectors := connectors st @ map (connectorEntry s) es,
        feets := feets st @ concat (map (receiverFeet apPos s) es)\<rparr>"
  by (induction es arbitrary: st)
     (auto simp: arrowStep_def Let_def foldl_feetStep arrowEntry_def connectorEntry_def receiverFeet_def)

lemma foldl_senderStep:
  "foldl (senderStep W apPos) st ss =
     st\<lparr>startPlates := startPlates st @ map (\<lambda>e. (fst e, startPoint (snd e))) ss,
        Collections.arrows := Collections.arrows st
          @ concat (map (\<lambda>e. map (arrowEntry W (fst e) (snd e)) (SenderArrows.arrows (snd e))) ss),
        connectors := connectors st
          @ concat (map (\<lambda>e. map (connectorEntry (fst e)) (SenderArrows.arrows (snd e))) ss),
        feets := feets st
          @ concat (map (\<lambda>e. concat (map (receiverFeet apPos (fst e)) (SenderArrows.arrows (snd e)))) ss)\<rparr>"
  by (induction ss arbitrary: st)
     (auto simp: senderStep_def Let_def foldl_arrowStep)

lemma flatten_eq:
  "flatten W p =
     \<lparr>startPlates = map (\<lambda>e. (fst e, startPoint (snd e))) (Props.arrows p),
      Collections.arrows =
         concat (map (\<lambda>e. map (arrowEntry W (fst e) (snd e)) (SenderArrows.arrows (snd e))) (Props.arrows p)),
      connectors = concat (map (\<lambda>e. map (connectorEntry (fst e)) (SenderArrows.arrows (snd e))) (Props.arrows p)),
      feets = concat (map (\<lambda>e. concat (map (receiverFeet (apPositions p) (fst e)) (SenderArrows.arrows (snd e)))) (Props.arrows p))\<rparr>"
  by (simp add: flatten_def foldl_senderStep emptyCollections_def)

section \<open>When two keys are equal\<close>

lemma hasArrowToken_Cons: "hasArrowToken s \<Longrightarrow> hasArrowToken (c # s)"
  by (cases s) auto

lemma sep_prefix_plain:
  assumes "\<not> hasArrowToken s" "'' -> '' @ r1 = s @ '' -> '' @ r2"
  shows "s = []"
proof (cases s)
  case Nil then show ?thesis by simp
next
  case (Cons a s1)
  note c1 = Cons
  show ?thesis
  proof (cases s1)
    case Nil with c1 assms show ?thesis by simp
  next
    case (Cons b s2)
    note c2 = Cons
    show ?thesis
    proof (cases s2)
      case Nil with c1 c2 assms show ?thesis by simp
    next
      case (Cons c s3)
      with c1 c2 assms show ?thesis by simp
    qed
  qed
qed

lemma key_inj:
  "\<not> hasArrowToken s1 \<Longrightarrow> \<not> hasArrowToken s2 \<Longrightarrow>
     s1 @ '' -> '' @ r1 = s2 @ '' -> '' @ r2 \<Longrightarrow> s1 = s2 \<and> r1 = r2"
proof (induction s1 arbitrary: s2)
  case Nil
  then have "s2 = []" using sep_prefix_plain[of s2 r1 r2] by simp
  with Nil show ?case by simp
next
  case (Cons a s1)
  show ?case
  proof (cases s2)
    case Nil
    with Cons.prems have "a # s1 = []" using sep_prefix_plain[of "a # s1" r2 r1] by simp
    then show ?thesis by simp
  next
    case (Cons b s2')
    with Cons.prems have ab: "a = b" and eq: "s1 @ '' -> '' @ r1 = s2' @ '' -> '' @ r2" by simp_all
    have "\<not> hasArrowToken s1" using Cons.prems(1) hasArrowToken_Cons by blast
    moreover have "\<not> hasArrowToken s2'" using Cons.prems(2) Cons hasArrowToken_Cons by blast
    ultimately have "s1 = s2' \<and> r1 = r2" using Cons.IH eq by blast
    with ab Cons show ?thesis by simp
  qed
qed

lemma distinct_concat_map:
  assumes "distinct xs"
    and "\<And>x. x \<in> set xs \<Longrightarrow> distinct (f x)"
    and "\<And>x y. x \<in> set xs \<Longrightarrow> y \<in> set xs \<Longrightarrow> x \<noteq> y \<Longrightarrow> set (f x) \<inter> set (f y) = {}"
  shows "distinct (concat (map f xs))"
  using assms
proof (induction xs)
  case Nil then show ?case by simp
next
  case (Cons x xs)
  have "distinct (concat (map f xs))" using Cons by simp
  moreover have "distinct (f x)" using Cons.prems(2) by simp
  moreover have "set (f x) \<inter> set (concat (map f xs)) = {}"
  proof -
    { fix y assume "y \<in> set xs"
      then have "x \<noteq> y" using Cons.prems(1) by auto
      then have "set (f x) \<inter> set (f y) = {}" using Cons.prems(3)[of x y] \<open>y \<in> set xs\<close> by simp }
    then show ?thesis by auto
  qed
  ultimately show ?case by simp
qed

section \<open>The keys of the four collections\<close>

lemma fst_feetEntries:
  "map fst (feetEntries apPos k cp ids) = map (\<lambda>a. k @ '' -> '' @ a) (filter (\<lambda>a. apPos a \<noteq> None) ids)"
  by (induction ids) (auto simp: feetEntries_def split: option.splits)

lemma distinct_map_fst_neq:
  "distinct (map fst xs) \<Longrightarrow> x \<in> set xs \<Longrightarrow> y \<in> set xs \<Longrightarrow> x \<noteq> y \<Longrightarrow> fst x \<noteq> fst y"
  by (metis distinct_map inj_onD)

lemma startPlates_keys: "map fst (startPlates (flatten W p)) = map fst (Props.arrows p)"
  by (simp add: flatten_eq comp_def)

lemma arrows_keys:
  "map fst (Collections.arrows (flatten W p)) =
     concat (map (\<lambda>e. map (\<lambda>r. fst e @ '' -> '' @ fst r) (SenderArrows.arrows (snd e))) (Props.arrows p))"
  by (simp add: flatten_eq map_concat comp_def arrowEntry_def)

lemma connectors_keys:
  "map fst (connectors (flatten W p)) =
     concat (map (\<lambda>e. map (\<lambda>r. fst e @ '' -> '' @ fst r) (SenderArrows.arrows (snd e))) (Props.arrows p))"
  by (simp add: flatten_eq map_concat comp_def connectorEntry_def)

lemma feets_keys:
  "map fst (feets (flatten W p)) =
     concat (map (\<lambda>e. concat (map (\<lambda>r. map (\<lambda>a. (fst e @ '' -> '' @ fst r) @ '' -> '' @ a)
                 (filter (\<lambda>a. apPositions p a \<noteq> None) (apIds (connector (snd r)))))
         (SenderArrows.arrows (snd e)))) (Props.arrows p))"
  by (simp add: flatten_eq map_concat comp_def receiverFeet_def fst_feetEntries)

lemma distinct_pair_keys:
  assumes wf: "wfProps p" and ps: "plainSenders p"
  shows "distinct (concat (map (\<lambda>e. map (\<lambda>r. fst e @ '' -> '' @ fst r) (SenderArrows.arrows (snd e))) (Props.arrows p)))"
proof (rule distinct_concat_map)
  show "distinct (Props.arrows p)" using wf by (auto simp: wfProps_def distinct_map)
next
  fix e assume e: "e \<in> set (Props.arrows p)"
  then have "distinct (map fst (SenderArrows.arrows (snd e)))"
    using wf by (auto simp: wfProps_def wfSenderArrows_def list_all_iff)
  then show "distinct (map (\<lambda>r. fst e @ '' -> '' @ fst r) (SenderArrows.arrows (snd e)))"
    by (auto simp: distinct_map inj_on_def)
next
  fix e e' assume e: "e \<in> set (Props.arrows p)" and e': "e' \<in> set (Props.arrows p)" and ne: "e \<noteq> e'"
  have d: "distinct (map fst (Props.arrows p))" using wf by (simp add: wfProps_def)
  have fne: "fst e \<noteq> fst e'" using distinct_map_fst_neq[OF d e e' ne] .
  have p1: "\<not> hasArrowToken (fst e)" and p2: "\<not> hasArrowToken (fst e')"
    using ps e e' by (auto simp: plainSenders_def list_all_iff)
  show "set (map (\<lambda>r. fst e @ '' -> '' @ fst r) (SenderArrows.arrows (snd e))) \<inter>
        set (map (\<lambda>r. fst e' @ '' -> '' @ fst r) (SenderArrows.arrows (snd e'))) = {}"
    using key_inj[OF p1 p2] fne by auto
qed

lemma distinct_feet_keys:
  assumes wf: "wfProps p" and ps: "plainSenders p" and pr: "plainReceivers p"
  shows "distinct (map fst (feets (flatten W p)))"
  unfolding feets_keys
proof (rule distinct_concat_map)
  show "distinct (Props.arrows p)" using wf by (auto simp: wfProps_def distinct_map)
next
  fix e assume e: "e \<in> set (Props.arrows p)"
  have dr: "distinct (map fst (SenderArrows.arrows (snd e)))"
    using wf e by (auto simp: wfProps_def wfSenderArrows_def list_all_iff)
  show "distinct (concat (map (\<lambda>r. map (\<lambda>a. (fst e @ '' -> '' @ fst r) @ '' -> '' @ a)
                 (filter (\<lambda>a. apPositions p a \<noteq> None) (apIds (connector (snd r)))))
         (SenderArrows.arrows (snd e))))"
  proof (rule distinct_concat_map)
    show "distinct (SenderArrows.arrows (snd e))" using dr by (simp add: distinct_map)
  next
    fix r assume r: "r \<in> set (SenderArrows.arrows (snd e))"
    then have "distinct (apIds (connector (snd r)))"
      using wf e by (auto simp: wfProps_def wfSenderArrows_def wfConnectorArrow_def list_all_iff)
    then show "distinct (map (\<lambda>a. (fst e @ '' -> '' @ fst r) @ '' -> '' @ a)
                 (filter (\<lambda>a. apPositions p a \<noteq> None) (apIds (connector (snd r)))))"
      by (auto simp: distinct_map inj_on_def)
  next
    fix r r' assume r: "r \<in> set (SenderArrows.arrows (snd e))" and r': "r' \<in> set (SenderArrows.arrows (snd e))"
      and ne: "r \<noteq> r'"
    have fne: "fst r \<noteq> fst r'" using distinct_map_fst_neq[OF dr r r' ne] .
    have p1: "\<not> hasArrowToken (fst r)" and p2: "\<not> hasArrowToken (fst r')"
      using pr e r r' by (auto simp: plainReceivers_def list_all_iff)
    show "set (map (\<lambda>a. (fst e @ '' -> '' @ fst r) @ '' -> '' @ a)
                 (filter (\<lambda>a. apPositions p a \<noteq> None) (apIds (connector (snd r))))) \<inter>
          set (map (\<lambda>a. (fst e @ '' -> '' @ fst r') @ '' -> '' @ a)
                 (filter (\<lambda>a. apPositions p a \<noteq> None) (apIds (connector (snd r'))))) = {}"
      using key_inj[OF p1 p2] fne by auto
  qed
next
  fix e e' assume e: "e \<in> set (Props.arrows p)" and e': "e' \<in> set (Props.arrows p)" and ne: "e \<noteq> e'"
  have d: "distinct (map fst (Props.arrows p))" using wf by (simp add: wfProps_def)
  have fne: "fst e \<noteq> fst e'" using distinct_map_fst_neq[OF d e e' ne] .
  have p1: "\<not> hasArrowToken (fst e)" and p2: "\<not> hasArrowToken (fst e')"
    using ps e e' by (auto simp: plainSenders_def list_all_iff)
  have k: "\<And>x y. fst e @ '' -> '' @ x \<noteq> fst e' @ '' -> '' @ y"
    using key_inj[OF p1 p2] fne by blast
  show "set (concat (map (\<lambda>r. map (\<lambda>a. (fst e @ '' -> '' @ fst r) @ '' -> '' @ a)
                 (filter (\<lambda>a. apPositions p a \<noteq> None) (apIds (connector (snd r)))))
         (SenderArrows.arrows (snd e)))) \<inter>
        set (concat (map (\<lambda>r. map (\<lambda>a. (fst e' @ '' -> '' @ fst r) @ '' -> '' @ a)
                 (filter (\<lambda>a. apPositions p a \<noteq> None) (apIds (connector (snd r)))))
         (SenderArrows.arrows (snd e')))) = {}"
    using k by (auto simp del: append_assoc simp add: append_assoc)
qed

lemma unit_scaled: "vmul (normalize_vec d) (vlength d) = d"
  by (cases "vlength d = 0") (auto simp: normalize_vec_def Let_def vmul_def vzero_def vlength_zero_iff isZero_def)

section \<open>Claims about the handle\<close>

text \<open>
  C2. For every handle width \<open>W\<close> and every path whose points at indices 1 and 2 are
  \<open>(0,0)\<close> and \<open>(10,0)\<close>, the handle is the segment from \<open>(5 - W/2, 0)\<close> to
  \<open>(5 + W/2, 0)\<close>. For every path of at least three points whose points at indices 1
  and 2 differ, there is a handle \<open>(a, b)\<close>; with \<open>u\<close> the normalised difference of
  the two points, \<open>u\<close> has length one and points from the first to the second, the
  midpoint of the handle is the midpoint of the two points, \<open>b - a = W u\<close>, and the
  length of the handle is the absolute value of \<open>W\<close>, that is \<open>W\<close> itself for a width
  that is not negative.
\<close>

theorem handle_segment:
  "arrowHandleFromPoints W (p0 # \<lparr>vx = 0, vy = 0\<rparr> # \<lparr>vx = 10, vy = 0\<rparr> # rest)
     = Some (\<lparr>vx = 5 - W / 2, vy = 0\<rparr>, \<lparr>vx = 5 + W / 2, vy = 0\<rparr>)
   \<and> (3 \<le> length ps \<and> ps ! 1 \<noteq> ps ! 2 \<longrightarrow>
        (\<exists>a b u. arrowHandleFromPoints W ps = Some (a, b)
           \<and> u = normalize_vec (vsub (ps ! 2) (ps ! 1))
           \<and> vlength u = 1
           \<and> vmul u (distance (ps ! 1) (ps ! 2)) = vsub (ps ! 2) (ps ! 1)
           \<and> linterp a b 0.5 = linterp (ps ! 1) (ps ! 2) 0.5
           \<and> vsub b a = vmul u W
           \<and> distance a b = \<bar>W\<bar>))"
proof (rule conjI)
  show "arrowHandleFromPoints W (p0 # \<lparr>vx = 0, vy = 0\<rparr> # \<lparr>vx = 10, vy = 0\<rparr> # rest)
     = Some (\<lparr>vx = 5 - W / 2, vy = 0\<rparr>, \<lparr>vx = 5 + W / 2, vy = 0\<rparr>)"
    by (simp add: arrowHandleFromPoints_def Let_def linterp_def vadd_def vsub_def vmul_def
        normalize_vec_def vlength_def isZero_def)
next
  show "3 \<le> length ps \<and> ps ! 1 \<noteq> ps ! 2 \<longrightarrow>
        (\<exists>a b u. arrowHandleFromPoints W ps = Some (a, b)
           \<and> u = normalize_vec (vsub (ps ! 2) (ps ! 1))
           \<and> vlength u = 1
           \<and> vmul u (distance (ps ! 1) (ps ! 2)) = vsub (ps ! 2) (ps ! 1)
           \<and> linterp a b 0.5 = linterp (ps ! 1) (ps ! 2) 0.5
           \<and> vsub b a = vmul u W
           \<and> distance a b = \<bar>W\<bar>)"
  proof
    assume h: "3 \<le> length ps \<and> ps ! 1 \<noteq> ps ! 2"
    define u where "u = normalize_vec (vsub (ps ! 2) (ps ! 1))"
    define m where "m = linterp (ps ! 1) (ps ! 2) 0.5"
    define a where "a = vsub m (vmul u (W / 2))"
    define b where "b = vadd m (vmul u (W / 2))"
    have nz: "\<not> isZero (vsub (ps ! 2) (ps ! 1))" using h by (simp add: isZero_vsub)
    have 1: "arrowHandleFromPoints W ps = Some (a, b)"
      using h handle_Some[of ps W] by (simp add: a_def b_def m_def u_def)
    have 2: "vlength u = 1" unfolding u_def using nz by (rule vlength_normalize)
    have 3: "vmul u (distance (ps ! 1) (ps ! 2)) = vsub (ps ! 2) (ps ! 1)"
      by (simp add: u_def distance_def unit_scaled)
    have 4: "linterp a b 0.5 = m" unfolding a_def b_def by (rule seg_mid)
    have 5: "vsub b a = vmul u W" unfolding a_def b_def by (rule seg_diff)
    have 6: "distance a b = \<bar>W\<bar>" by (simp add: distance_def 5 vlength_vmul 2)
    from 1 2 3 4 5 6 show "\<exists>a b u. arrowHandleFromPoints W ps = Some (a, b)
           \<and> u = normalize_vec (vsub (ps ! 2) (ps ! 1))
           \<and> vlength u = 1
           \<and> vmul u (distance (ps ! 1) (ps ! 2)) = vsub (ps ! 2) (ps ! 1)
           \<and> linterp a b 0.5 = linterp (ps ! 1) (ps ! 2) 0.5
           \<and> vsub b a = vmul u W
           \<and> distance a b = \<bar>W\<bar>"
      unfolding m_def u_def by blast
  qed
qed

theorem handle_segment_witness:
  "3 \<le> length [\<lparr>vx = 7, vy = 7\<rparr>, \<lparr>vx = 0, vy = 0\<rparr>, \<lparr>vx = 3, vy = 4\<rparr>]
   \<and> [\<lparr>vx = 7, vy = 7\<rparr>, \<lparr>vx = 0, vy = 0\<rparr>, \<lparr>vx = 3, vy = 4\<rparr>] ! 1
       \<noteq> [\<lparr>vx = 7, vy = 7\<rparr>, \<lparr>vx = 0, vy = 0\<rparr>, \<lparr>vx = 3, vy = 4\<rparr>] ! 2
   \<and> (\<exists>a b. arrowHandleFromPoints 12 [\<lparr>vx = 7, vy = 7\<rparr>, \<lparr>vx = 0, vy = 0\<rparr>, \<lparr>vx = 3, vy = 4\<rparr>]
          = Some (a, b) \<and> distance a b = 12)"
  using handle_segment [of 12 vzero "[]" "[\<lparr>vx = 7, vy = 7\<rparr>, \<lparr>vx = 0, vy = 0\<rparr>, \<lparr>vx = 3, vy = 4\<rparr>]"]
  by auto

text \<open>
  C3. The handle is none exactly when the path is degenerate: it has fewer than three
  points, or it has at least three and the points at indices 1 and 2 are equal. In
  every other case there is a handle.
\<close>

theorem handle_none_iff_degenerate:
  "arrowHandleFromPoints W ps = None \<longleftrightarrow>
     length ps < 3 \<or> (3 \<le> length ps \<and> ps ! 1 = ps ! 2)"
proof (cases "length ps < 3")
  case True
  then show ?thesis by (simp add: arrowHandleFromPoints_def)
next
  case False
  then have "arrowHandleFromPoints W ps = None
      \<longleftrightarrow> isZero (normalize_vec (vsub (ps ! 2) (ps ! 1)))"
    by (simp add: arrowHandleFromPoints_def Let_def)
  also have "\<dots> \<longleftrightarrow> ps ! 1 = ps ! 2"
    by (simp add: isZero_normalize isZero_vsub)
  finally show ?thesis using False by auto
qed

theorem handle_none_iff_degenerate_witness:
  "arrowHandleFromPoints 12 [\<lparr>vx = 1, vy = 1\<rparr>, \<lparr>vx = 2, vy = 2\<rparr>] = None
   \<and> arrowHandleFromPoints 12 [\<lparr>vx = 1, vy = 1\<rparr>, \<lparr>vx = 2, vy = 2\<rparr>, \<lparr>vx = 2, vy = 2\<rparr>] = None
   \<and> arrowHandleFromPoints 12 [\<lparr>vx = 1, vy = 1\<rparr>, \<lparr>vx = 2, vy = 2\<rparr>, \<lparr>vx = 2, vy = 3\<rparr>] \<noteq> None"
  using handle_none_iff_degenerate [of 12 "[\<lparr>vx = 1, vy = 1\<rparr>, \<lparr>vx = 2, vy = 2\<rparr>]"]
        handle_none_iff_degenerate [of 12 "[\<lparr>vx = 1, vy = 1\<rparr>, \<lparr>vx = 2, vy = 2\<rparr>, \<lparr>vx = 2, vy = 2\<rparr>]"]
        handle_none_iff_degenerate [of 12 "[\<lparr>vx = 1, vy = 1\<rparr>, \<lparr>vx = 2, vy = 2\<rparr>, \<lparr>vx = 2, vy = 3\<rparr>]"]
  by simp

text \<open>
  C10. The handle depends only on the points at indices 1 and 2: two paths of at least
  three points that agree at these two indices have the same handle, or both none,
  whatever their first point and their points after index 2 are.
\<close>

theorem handle_depends_on_points_1_2:
  "3 \<le> length ps \<Longrightarrow> 3 \<le> length qs \<Longrightarrow> ps ! 1 = qs ! 1 \<Longrightarrow> ps ! 2 = qs ! 2 \<Longrightarrow>
     arrowHandleFromPoints W ps = arrowHandleFromPoints W qs"
  by (simp add: arrowHandleFromPoints_def)

theorem handle_depends_on_points_1_2_witness:
  "arrowHandleFromPoints 12 [\<lparr>vx = 1, vy = 1\<rparr>, \<lparr>vx = 2, vy = 2\<rparr>, \<lparr>vx = 2, vy = 3\<rparr>]
   = arrowHandleFromPoints 12 [\<lparr>vx = 9, vy = 9\<rparr>, \<lparr>vx = 2, vy = 2\<rparr>, \<lparr>vx = 2, vy = 3\<rparr>, \<lparr>vx = 8, vy = 8\<rparr>]"
  using handle_depends_on_points_1_2 [of "[\<lparr>vx = 1, vy = 1\<rparr>, \<lparr>vx = 2, vy = 2\<rparr>, \<lparr>vx = 2, vy = 3\<rparr>]"
       "[\<lparr>vx = 9, vy = 9\<rparr>, \<lparr>vx = 2, vy = 2\<rparr>, \<lparr>vx = 2, vy = 3\<rparr>, \<lparr>vx = 8, vy = 8\<rparr>]" 12]
  by simp

section \<open>Claims about the flatten step\<close>

lemma flatten_collidingProps:
  "map fst (Collections.arrows (flatten 12 collidingProps)) = [''a -> b -> c'', ''a -> b -> c'']"
  by (simp add: arrows_keys collidingProps_def)

lemma wf_collidingProps: "wfProps collidingProps"
  by (simp add: wfProps_def wfSenderArrows_def wfConnectorArrow_def collidingProps_def plainConnectorArrow_def)

lemma wf_sampleProps: "wfProps sampleProps"
  by (simp add: wfProps_def wfSenderArrows_def wfConnectorArrow_def sampleProps_def
      sampleSenderArrows_def sampleConnectorArrow_def)

lemma plain_sampleProps: "plainSenders sampleProps \<and> plainReceivers sampleProps"
  by (simp add: plainSenders_def plainReceivers_def sampleProps_def sampleSenderArrows_def)

lemma sample_members:
  "(''S'', sampleSenderArrows) \<in> set (Props.arrows sampleProps)"
  "(''R'', sampleConnectorArrow) \<in> set (SenderArrows.arrows sampleSenderArrows)"
  "''A'' \<in> set (apIds (connector sampleConnectorArrow))"
  "''B'' \<in> set (apIds (connector sampleConnectorArrow))"
  "apPositions sampleProps ''A'' = Some \<lparr>vx = 30, vy = 5\<rparr>"
  "apPositions sampleProps ''B'' = None"
  by (simp_all add: sampleProps_def sampleSenderArrows_def sampleConnectorArrow_def)

text \<open>
  Against C1 as it is written: both maps of \<open>collidingProps\<close> have unique keys, and the
  arrows collection holds the key \<open>a -> b -> c\<close> twice, once for sender \<open>a\<close> with receiver
  \<open>b -> c\<close> and once for sender \<open>a -> b\<close> with receiver \<open>c\<close>.
\<close>

theorem keys_collide_counterexample:
  "wfProps collidingProps \<and> \<not> distinct (map fst (Collections.arrows (flatten 12 collidingProps)))"
  by (simp add: wf_collidingProps flatten_collidingProps)

text \<open>
  C1, amended. For every input whose maps and sets hold no key twice: no start-plate
  key occurs twice; if no sender id contains \<open>->\<close>, no arrow key and no connector key
  occurs twice; if moreover no receiver id contains \<open>->\<close>, no feet key occurs twice.
\<close>

theorem keys_unique:
  "wfProps p \<Longrightarrow>
     distinct (map fst (startPlates (flatten W p))) \<and>
     (plainSenders p \<longrightarrow>
        distinct (map fst (Collections.arrows (flatten W p))) \<and>
        distinct (map fst (connectors (flatten W p)))) \<and>
     (plainSenders p \<and> plainReceivers p \<longrightarrow> distinct (map fst (feets (flatten W p))))"
  using distinct_pair_keys[of p] distinct_feet_keys[of p W]
  by (simp add: startPlates_keys arrows_keys connectors_keys wfProps_def)

theorem keys_unique_witness:
  "wfProps sampleProps \<and> plainSenders sampleProps \<and> plainReceivers sampleProps \<and>
   distinct (map fst (startPlates (flatten 12 sampleProps))) \<and>
   distinct (map fst (Collections.arrows (flatten 12 sampleProps))) \<and>
   distinct (map fst (connectors (flatten 12 sampleProps))) \<and>
   distinct (map fst (feets (flatten 12 sampleProps)))"
  using keys_unique [of sampleProps 12] wf_sampleProps plain_sampleProps by simp

lemma filter_key_distinct:
  "distinct (map fst xs) \<Longrightarrow> (k, v) \<in> set xs \<Longrightarrow> filter (\<lambda>e. fst e = k) xs = [(k, v)]"
proof (induction xs)
  case Nil then show ?case by simp
next
  case (Cons x xs)
  show ?case
  proof (cases "x = (k, v)")
    case True
    then have "k \<notin> fst ` set xs" using Cons.prems(1) by auto
    then have "filter (\<lambda>e. fst e = k) xs = []" by (auto simp: filter_empty_conv)
    with True show ?thesis by simp
  next
    case False
    then have in_xs: "(k, v) \<in> set xs" using Cons.prems(2) by auto
    then have "k \<in> fst ` set xs" by force
    then have "fst x \<noteq> k" using Cons.prems(1) by auto
    then show ?thesis using Cons.IH Cons.prems(1) in_xs by simp
  qed
qed

lemma feets_member:
  assumes "(s, sa) \<in> set (Props.arrows p)" "(r, ca) \<in> set (SenderArrows.arrows sa)"
    "a \<in> set (apIds (connector ca))" "apPositions p a = Some pos"
  shows "(s @ '' -> '' @ r @ '' -> '' @ a, (position (connector ca), pos)) \<in> set (feets (flatten W p))"
proof -
  have "(s @ '' -> '' @ r @ '' -> '' @ a, (position (connector ca), pos))
          \<in> set (receiverFeet (apPositions p) s (r, ca))"
    using assms(3,4) by (force simp: receiverFeet_def feetEntries_def)
  then show ?thesis using assms(1,2) by (force simp: flatten_eq)
qed

lemma feets_key_origin:
  assumes "k \<in> set (map fst (feets (flatten W p)))"
  shows "\<exists>e \<in> set (Props.arrows p). \<exists>r \<in> set (SenderArrows.arrows (snd e)).
           \<exists>a \<in> set (apIds (connector (snd r))).
             apPositions p a \<noteq> None \<and> k = fst e @ '' -> '' @ fst r @ '' -> '' @ a"
  using assms unfolding feets_keys by auto

lemma feet_key_inj:
  assumes "\<not> hasArrowToken s1" "\<not> hasArrowToken s2" "\<not> hasArrowToken r1" "\<not> hasArrowToken r2"
    and "s1 @ '' -> '' @ r1 @ '' -> '' @ a1 = s2 @ '' -> '' @ r2 @ '' -> '' @ a2"
  shows "s1 = s2 \<and> r1 = r2 \<and> a1 = a2"
proof -
  have 1: "s1 = s2 \<and> r1 @ '' -> '' @ a1 = r2 @ '' -> '' @ a2"
    using key_inj[OF assms(1,2), of "r1 @ '' -> '' @ a1" "r2 @ '' -> '' @ a2"] assms(5) by simp
  then have "r1 = r2 \<and> a1 = a2" using key_inj[OF assms(3,4), of a1 a2] by simp
  with 1 show ?thesis by simp
qed

text \<open>
  Against C4 as it is written: in \<open>collidingFeetProps\<close> sender \<open>a\<close> maps to receiver \<open>b\<close>,
  whose connector fans out to the access point \<open>c -> d\<close>, which has a position; the
  feet collection holds two entries keyed \<open>a -> b -> c -> d\<close>, the second one for
  receiver \<open>b -> c\<close> and access point \<open>d\<close>.
\<close>

theorem feet_entry_collides_counterexample:
  "wfProps collidingFeetProps \<and>
   (''a'', \<lparr>startPoint = vzero,
            SenderArrows.arrows = [(''b'', plainConnectorArrow [''c -> d'']),
                                   (''b -> c'', plainConnectorArrow [''d''])]\<rparr>)
      \<in> set (Props.arrows collidingFeetProps) \<and>
   ''c -> d'' \<in> set (apIds (connector (plainConnectorArrow [''c -> d'']))) \<and>
   apPositions collidingFeetProps ''c -> d'' = Some \<lparr>vx = 1, vy = 1\<rparr> \<and>
   filter (\<lambda>e. fst e = ''a'' @ '' -> '' @ ''b'' @ '' -> '' @ ''c -> d'') (feets (flatten 12 collidingFeetProps))
     = [(''a -> b -> c -> d'', (vzero, \<lparr>vx = 1, vy = 1\<rparr>)),
        (''a -> b -> c -> d'', (vzero, \<lparr>vx = 2, vy = 2\<rparr>))]"
  by (simp add: wfProps_def wfSenderArrows_def wfConnectorArrow_def collidingFeetProps_def
      plainConnectorArrow_def flatten_eq receiverFeet_def feetEntries_def)

text \<open>
  C4, amended. For every input whose maps and sets hold no key twice and whose sender
  and receiver ids do not contain \<open>->\<close>, where sender \<open>S\<close> maps to receiver \<open>R\<close> whose
  connector fans out to the access point \<open>A\<close>: if \<open>A\<close> has a position, the feet entries
  keyed \<open>S -> R -> A\<close> are exactly one, from the position of the connector to the
  position of \<open>A\<close>; if \<open>A\<close> has no position there is none. The flatten step has no
  error result.
\<close>

theorem feet_entry_for_access_point:
  assumes "wfProps p" "plainSenders p" "plainReceivers p"
    and "(S, sa) \<in> set (Props.arrows p)"
    and "(R, ca) \<in> set (SenderArrows.arrows sa)"
    and "A \<in> set (apIds (connector ca))"
  shows "filter (\<lambda>e. fst e = S @ '' -> '' @ R @ '' -> '' @ A) (feets (flatten W p)) =
           (case apPositions p A of
              Some pos \<Rightarrow> [(S @ '' -> '' @ R @ '' -> '' @ A, (position (connector ca), pos))]
            | None \<Rightarrow> [])"
proof (cases "apPositions p A")
  case (Some pos)
  have d: "distinct (map fst (feets (flatten W p)))" using distinct_feet_keys[OF assms(1,2,3)] .
  have m: "(S @ '' -> '' @ R @ '' -> '' @ A, (position (connector ca), pos)) \<in> set (feets (flatten W p))"
    using feets_member[OF assms(4,5,6) Some] .
  show ?thesis using filter_key_distinct[OF d m] Some by simp
next
  case None
  have "S @ '' -> '' @ R @ '' -> '' @ A \<notin> set (map fst (feets (flatten W p)))"
  proof
    assume "S @ '' -> '' @ R @ '' -> '' @ A \<in> set (map fst (feets (flatten W p)))"
    then obtain e r a where e: "e \<in> set (Props.arrows p)" and r: "r \<in> set (SenderArrows.arrows (snd e))"
      and a: "apPositions p a \<noteq> None"
      and k: "S @ '' -> '' @ R @ '' -> '' @ A = fst e @ '' -> '' @ fst r @ '' -> '' @ a"
      using feets_key_origin by blast
    have pS: "\<not> hasArrowToken S" and pe: "\<not> hasArrowToken (fst e)"
      using assms(2,4) e by (auto simp: plainSenders_def list_all_iff)
    have pR: "\<not> hasArrowToken R" and pr: "\<not> hasArrowToken (fst r)"
      using assms(3,4,5) e r by (force simp: plainReceivers_def list_all_iff)+
    have "A = a" using feet_key_inj[OF pS pe pR pr k] by simp
    with a None show False by simp
  qed
  then have "filter (\<lambda>e. fst e = S @ '' -> '' @ R @ '' -> '' @ A) (feets (flatten W p)) = []"
    by (force simp: filter_empty_conv)
  with None show ?thesis by simp
qed

theorem feet_entry_for_access_point_witness:
  "wfProps sampleProps \<and> plainSenders sampleProps \<and> plainReceivers sampleProps \<and>
   (''S'', sampleSenderArrows) \<in> set (Props.arrows sampleProps) \<and>
   (''R'', sampleConnectorArrow) \<in> set (SenderArrows.arrows sampleSenderArrows) \<and>
   ''A'' \<in> set (apIds (connector sampleConnectorArrow)) \<and>
   ''B'' \<in> set (apIds (connector sampleConnectorArrow)) \<and>
   filter (\<lambda>e. fst e = ''S -> R -> A'') (feets (flatten 12 sampleProps))
     = [(''S -> R -> A'', (\<lparr>vx = 20, vy = 0\<rparr>, \<lparr>vx = 30, vy = 5\<rparr>))] \<and>
   filter (\<lambda>e. fst e = ''S -> R -> B'') (feets (flatten 12 sampleProps)) = []"
  using feet_entry_for_access_point [OF wf_sampleProps conjunct1[OF plain_sampleProps]
          conjunct2[OF plain_sampleProps] sample_members(1) sample_members(2) sample_members(3), of 12]
        feet_entry_for_access_point [OF wf_sampleProps conjunct1[OF plain_sampleProps]
          conjunct2[OF plain_sampleProps] sample_members(1) sample_members(2) sample_members(4), of 12]
        wf_sampleProps plain_sampleProps sample_members
  by (simp add: sampleConnectorArrow_def)

lemma arrows_member:
  assumes "(s, sa) \<in> set (Props.arrows p)" "(r, ca) \<in> set (SenderArrows.arrows sa)"
  shows "arrowEntry W s sa (r, ca) \<in> set (Collections.arrows (flatten W p))"
    and "connectorEntry s (r, ca) \<in> set (connectors (flatten W p))"
  using assms by (force simp: flatten_eq)+

text \<open>
  C5. For every sender \<open>s\<close> with bundle \<open>sa\<close> and every receiver \<open>r\<close> with connector arrow
  \<open>ca\<close> in it, the arrows collection holds the entry keyed \<open>s -> r\<close> whose points are the
  start point of \<open>sa\<close> followed by the waypoints of \<open>ca\<close> and whose handle is the handle
  of these points, and the connectors collection holds the entry with the same key at
  the position of the connector. Every entry of the two collections is of this form,
  and the two collections have the same keys in the same order.
\<close>

theorem arrow_and_connector_entries:
  "((s, sa) \<in> set (Props.arrows p) \<and> (r, ca) \<in> set (SenderArrows.arrows sa) \<longrightarrow>
      (s @ '' -> '' @ r,
       \<lparr>ArrowData.points = startPoint sa # ConnectorArrow.points ca,
        handle = arrowHandleFromPoints W (startPoint sa # ConnectorArrow.points ca)\<rparr>)
        \<in> set (Collections.arrows (flatten W p)) \<and>
      (s @ '' -> '' @ r, position (connector ca)) \<in> set (connectors (flatten W p)))
   \<and> (\<forall>x \<in> set (Collections.arrows (flatten W p)).
        \<exists>s sa r ca. (s, sa) \<in> set (Props.arrows p) \<and> (r, ca) \<in> set (SenderArrows.arrows sa) \<and>
          x = (s @ '' -> '' @ r,
               \<lparr>ArrowData.points = startPoint sa # ConnectorArrow.points ca,
                handle = arrowHandleFromPoints W (startPoint sa # ConnectorArrow.points ca)\<rparr>))
   \<and> (\<forall>x \<in> set (connectors (flatten W p)).
        \<exists>s sa r ca. (s, sa) \<in> set (Props.arrows p) \<and> (r, ca) \<in> set (SenderArrows.arrows sa) \<and>
          x = (s @ '' -> '' @ r, position (connector ca)))
   \<and> map fst (connectors (flatten W p)) = map fst (Collections.arrows (flatten W p))"
proof (intro conjI impI ballI)
  assume h: "(s, sa) \<in> set (Props.arrows p) \<and> (r, ca) \<in> set (SenderArrows.arrows sa)"
  show "(s @ '' -> '' @ r,
       \<lparr>ArrowData.points = startPoint sa # ConnectorArrow.points ca,
        handle = arrowHandleFromPoints W (startPoint sa # ConnectorArrow.points ca)\<rparr>)
        \<in> set (Collections.arrows (flatten W p))"
    using arrows_member(1)[of s sa p r ca W] h by (simp add: arrowEntry_def)
  show "(s @ '' -> '' @ r, position (connector ca)) \<in> set (connectors (flatten W p))"
    using arrows_member(2)[of s sa p r ca W] h by (simp add: connectorEntry_def)
next
  fix x assume "x \<in> set (Collections.arrows (flatten W p))"
  then obtain e r where "e \<in> set (Props.arrows p)" "r \<in> set (SenderArrows.arrows (snd e))"
    "x = arrowEntry W (fst e) (snd e) r" by (auto simp: flatten_eq)
  then show "\<exists>s sa r ca. (s, sa) \<in> set (Props.arrows p) \<and> (r, ca) \<in> set (SenderArrows.arrows sa) \<and>
          x = (s @ '' -> '' @ r,
               \<lparr>ArrowData.points = startPoint sa # ConnectorArrow.points ca,
                handle = arrowHandleFromPoints W (startPoint sa # ConnectorArrow.points ca)\<rparr>)"
    by (intro exI[of _ "fst e"] exI[of _ "snd e"] exI[of _ "fst r"] exI[of _ "snd r"])
       (simp add: arrowEntry_def)
next
  fix x assume "x \<in> set (connectors (flatten W p))"
  then obtain e r where "e \<in> set (Props.arrows p)" "r \<in> set (SenderArrows.arrows (snd e))"
    "x = connectorEntry (fst e) r" by (auto simp: flatten_eq)
  then show "\<exists>s sa r ca. (s, sa) \<in> set (Props.arrows p) \<and> (r, ca) \<in> set (SenderArrows.arrows sa) \<and>
          x = (s @ '' -> '' @ r, position (connector ca))"
    by (intro exI[of _ "fst e"] exI[of _ "snd e"] exI[of _ "fst r"] exI[of _ "snd r"])
       (simp add: connectorEntry_def)
next
  show "map fst (connectors (flatten W p)) = map fst (Collections.arrows (flatten W p))"
    by (simp add: arrows_keys connectors_keys)
qed

theorem arrow_and_connector_entries_witness:
  "(''S'', sampleSenderArrows) \<in> set (Props.arrows sampleProps) \<and>
   (''R'', sampleConnectorArrow) \<in> set (SenderArrows.arrows sampleSenderArrows) \<and>
   (''S -> R'',
     \<lparr>ArrowData.points = [\<lparr>vx = 0, vy = 0\<rparr>, \<lparr>vx = 0, vy = 0\<rparr>, \<lparr>vx = 10, vy = 0\<rparr>, \<lparr>vx = 20, vy = 0\<rparr>],
      handle = Some (\<lparr>vx = -1, vy = 0\<rparr>, \<lparr>vx = 11, vy = 0\<rparr>)\<rparr>)
     \<in> set (Collections.arrows (flatten 12 sampleProps)) \<and>
   (''S -> R'', \<lparr>vx = 20, vy = 0\<rparr>) \<in> set (connectors (flatten 12 sampleProps))"
proof -
  have h: "arrowHandleFromPoints 12 [\<lparr>vx = 0, vy = 0\<rparr>, \<lparr>vx = 0, vy = 0\<rparr>, \<lparr>vx = 10, vy = 0\<rparr>, \<lparr>vx = 20, vy = 0\<rparr>]
     = Some (\<lparr>vx = -1, vy = 0\<rparr>, \<lparr>vx = 11, vy = 0\<rparr>)"
    by (simp add: arrowHandleFromPoints_def Let_def linterp_def vadd_def vsub_def vmul_def
        normalize_vec_def vlength_def isZero_def)
  show ?thesis
    using arrow_and_connector_entries [of "''S''" sampleSenderArrows sampleProps "''R''" sampleConnectorArrow 12]
      sample_members(1,2) h
    by (simp add: sampleSenderArrows_def sampleConnectorArrow_def)
qed

section \<open>Removing a sender from the input\<close>

lemma removeSender_arrows:
  "Props.arrows (removeSender s p) = filter (\<lambda>e. fst e \<noteq> s) (Props.arrows p)"
  "apPositions (removeSender s p) = apPositions p"
  by (simp_all add: removeSender_def)

lemma plainSenders_removeSender: "plainSenders p \<Longrightarrow> plainSenders (removeSender s p)"
  by (simp add: plainSenders_def removeSender_arrows list_all_iff)

lemma pair_key_origin:
  assumes "k \<in> set (map fst (Collections.arrows (flatten W p)))"
  shows "\<exists>e \<in> set (Props.arrows p). \<exists>r \<in> set (SenderArrows.arrows (snd e)). k = fst e @ '' -> '' @ fst r"
  using assms unfolding arrows_keys by auto

lemma sender_pair_key_gone:
  assumes ps: "plainSenders p" and s: "(s, sa) \<in> set (Props.arrows p)"
  shows "s @ '' -> '' @ x \<notin> set (map fst (Collections.arrows (flatten W (removeSender s p))))"
proof
  assume "s @ '' -> '' @ x \<in> set (map fst (Collections.arrows (flatten W (removeSender s p))))"
  then have "\<exists>e \<in> set (Props.arrows (removeSender s p)). \<exists>r \<in> set (SenderArrows.arrows (snd e)).
      s @ '' -> '' @ x = fst e @ '' -> '' @ fst r"
    by (rule pair_key_origin)
  then obtain e and r :: "string \<times> ConnectorArrow"
    where e: "e \<in> set (Props.arrows (removeSender s p))"
    and k: "s @ '' -> '' @ x = fst e @ '' -> '' @ fst r"
    by blast
  have ne: "fst e \<noteq> s" and e': "e \<in> set (Props.arrows p)" using e by (simp_all add: removeSender_arrows)
  have "\<not> hasArrowToken s" using ps s by (force simp: plainSenders_def list_all_iff)
  moreover have "\<not> hasArrowToken (fst e)" using ps e' by (force simp: plainSenders_def list_all_iff)
  ultimately have "s = fst e" using key_inj k by blast
  with ne show False by simp
qed

lemma sender_feet_key_gone:
  assumes ps: "plainSenders p" and s: "(s, sa) \<in> set (Props.arrows p)"
  shows "s @ '' -> '' @ x \<notin> set (map fst (feets (flatten W (removeSender s p))))"
proof
  assume "s @ '' -> '' @ x \<in> set (map fst (feets (flatten W (removeSender s p))))"
  then have "\<exists>e \<in> set (Props.arrows (removeSender s p)). \<exists>r \<in> set (SenderArrows.arrows (snd e)).
           \<exists>a \<in> set (apIds (connector (snd r))).
             apPositions (removeSender s p) a \<noteq> None \<and> s @ '' -> '' @ x = fst e @ '' -> '' @ fst r @ '' -> '' @ a"
    by (rule feets_key_origin)
  then obtain e and r :: "string \<times> ConnectorArrow" and a
    where e: "e \<in> set (Props.arrows (removeSender s p))"
    and k: "s @ '' -> '' @ x = fst e @ '' -> '' @ fst r @ '' -> '' @ a"
    by blast
  have ne: "fst e \<noteq> s" and e': "e \<in> set (Props.arrows p)" using e by (simp_all add: removeSender_arrows)
  have "\<not> hasArrowToken s" using ps s by (force simp: plainSenders_def list_all_iff)
  moreover have "\<not> hasArrowToken (fst e)" using ps e' by (force simp: plainSenders_def list_all_iff)
  ultimately have "s = fst e" using key_inj k by blast
  with ne show False by simp
qed

lemma removeSender_keys: "s \<notin> set (map fst (Props.arrows (removeSender s p)))"
  by (auto simp: removeSender_arrows)

section \<open>A pass on a regular scene\<close>

lemma find_append_if:
  "find P (xs @ ys) = (case find P xs of None \<Rightarrow> find P ys | Some x \<Rightarrow> Some x)"
  by (induction xs) auto

lemma descendants_leaf: "nodeKids n = [] \<Longrightarrow> descendants n = []"
  by (cases n) simp

lemma flatNodes_regular: "regularNodes ks \<Longrightarrow> flatNodes ks = ks"
  by (induction ks) (auto simp: regularNodes_def flatNodes_def descendants_leaf)

lemma rebind_leaf:
  "nodeKids n = [] \<Longrightarrow>
     rebind next n = (case map_of next (nodeClass n) of
                        None \<Rightarrow> []
                      | Some d' \<Rightarrow> [GNode (nodeId n) (nodeClass n) d' []])"
  by (cases n) (auto split: option.splits)

lemma rebind_regular_keys:
  "regularNodes ks \<Longrightarrow>
     set (map nodeClass (concat (map (rebind next) ks)))
       = set (map nodeClass ks) \<inter> set (map fst next)"
proof (induction ks)
  case Nil then show ?case by simp
next
  case (Cons n ks)
  then have leaf: "nodeKids n = []" and rest: "regularNodes ks" by (simp_all add: regularNodes_def)
  have "set (map nodeClass (rebind next n)) = {nodeClass n} \<inter> set (map fst next)"
  proof (cases "map_of next (nodeClass n)")
    case None
    then have "nodeClass n \<notin> fst ` set next" by (simp add: map_of_eq_None_iff)
    with None show ?thesis by (simp add: rebind_leaf[OF leaf])
  next
    case (Some d')
    then have "(nodeClass n, d') \<in> set next" by (rule map_of_SomeD)
    then have "nodeClass n \<in> fst ` set next" by force
    with Some show ?thesis by (simp add: rebind_leaf[OF leaf])
  qed
  then show ?case using Cons.IH[OF rest] by auto
qed

lemma rebind_regular: "regularNodes ks \<Longrightarrow> regularNodes (concat (map (rebind next) ks))"
proof (induction ks)
  case Nil then show ?case by (simp add: regularNodes_def)
next
  case (Cons n ks)
  then have leaf: "nodeKids n = []" and safe: "\<not> groupClass (nodeClass n)"
    and rest: "regularNodes ks" by (simp_all add: regularNodes_def)
  have "regularNodes (rebind next n)"
    using safe by (cases "map_of next (nodeClass n)") (simp_all add: rebind_leaf[OF leaf] regularNodes_def)
  then show ?case using Cons.IH[OF rest] by (simp add: regularNodes_def)
qed

lemma newNodes_keys: "map nodeClass (newNodes fresh items) = map fst items"
  by (induction items arbitrary: fresh) simp_all

lemma newNodes_regular:
  "list_all (\<lambda>d. \<not> groupClass (fst d)) items \<Longrightarrow> regularNodes (newNodes fresh items)"
  by (induction items arbitrary: fresh) (simp_all add: regularNodes_def)

lemma joinKids_keys:
  assumes "regularNodes ks"
  shows "set (map nodeClass (joinKids next fresh ks)) = set (map fst next)"
proof -
  have "set (map nodeClass (newNodes fresh (joinEnter (flatNodes ks) next)))
          = set (map fst next) - set (map nodeClass ks)"
    by (auto simp: newNodes_keys joinEnter_def flatNodes_regular[OF assms])
  then show ?thesis
    using rebind_regular_keys[OF assms, of "next"] by (auto simp: joinKids_def)
qed

lemma joinKids_regular:
  assumes "regularNodes ks" and "list_all (\<lambda>d. \<not> groupClass (fst d)) next"
  shows "regularNodes (joinKids next fresh ks)"
proof -
  have "list_all (\<lambda>d. \<not> groupClass (fst d)) (joinEnter (flatNodes ks) next)"
    using assms(2) by (auto simp: joinEnter_def list_all_iff)
  then have "regularNodes (newNodes fresh (joinEnter (flatNodes ks) next))"
    by (rule newNodes_regular)
  then show ?thesis using rebind_regular[OF assms(1), of "next"]
    by (simp add: joinKids_def regularNodes_def)
qed

lemma find_regular_None:
  assumes "regularNodes ks" and "name = ''start-plates'' \<or> name = ''feets'' \<or> name = ''connectors''"
  shows "find (\<lambda>e. name \<in> set (classTokens (fst e)))
           (map (\<lambda>n. (nodeClass n, NodeT (nodeId n))) ks) = None"
  using assms by (auto simp: find_None_iff regularNodes_def list_all_iff groupClass_def)

lemma select_regular:
  assumes "regularScene g"
  shows "selectClass ''start-plates'' g = Some (GroupT StartPlatesGroup)"
    and "selectClass ''arrows'' g = Some (GroupT ArrowsGroup)"
    and "selectClass ''connectors'' g = Some (GroupT ConnectorsGroup)"
    and "selectClass ''feets'' g = Some (GroupT FeetsGroup)"
proof -
  have r: "regularNodes (arrowsKids g)" "regularNodes (startPlatesKids g)"
    "regularNodes (feetsKids g)" "regularNodes (connectorsKids g)"
    using assms by (simp_all add: regularScene_def)
  note f = flatNodes_regular[OF r(1)] flatNodes_regular[OF r(2)] flatNodes_regular[OF r(3)]
    flatNodes_regular[OF r(4)]
  show "selectClass ''arrows'' g = Some (GroupT ArrowsGroup)"
    by (simp add: selectClass_def docOrder_def isWs_def)
  show "selectClass ''start-plates'' g = Some (GroupT StartPlatesGroup)"
    using find_regular_None[OF r(1), of "''start-plates''"]
    by (simp add: selectClass_def docOrder_def f find_append_if isWs_def)
  show "selectClass ''feets'' g = Some (GroupT FeetsGroup)"
    using find_regular_None[OF r(1), of "''feets''"] find_regular_None[OF r(2), of "''feets''"]
    by (simp add: selectClass_def docOrder_def f find_append_if isWs_def)
  show "selectClass ''connectors'' g = Some (GroupT ConnectorsGroup)"
    using find_regular_None[OF r(1), of "''connectors''"] find_regular_None[OF r(2), of "''connectors''"]
      find_regular_None[OF r(3), of "''connectors''"]
    by (simp add: selectClass_def docOrder_def f find_append_if isWs_def)
qed

lemma manageArrows_regular:
  assumes "regularScene g"
  shows "manageArrows W p g =
     \<lparr>arrowsKids = joinKids (map (\<lambda>d. (fst d, ArrowDatum (snd d))) (Collections.arrows (flatten W p)))
                     (nextId g + length (startPlates (flatten W p))) (arrowsKids g),
      startPlatesKids = joinKids (map (\<lambda>d. (fst d, PlateDatum (snd d))) (startPlates (flatten W p)))
                     (nextId g) (startPlatesKids g),
      feetsKids = joinKids (map (\<lambda>d. (fst d, FeetDatum (snd d))) (feets (flatten W p)))
                     (nextId g + length (startPlates (flatten W p))
                        + length (Collections.arrows (flatten W p)) + length (connectors (flatten W p)))
                     (feetsKids g),
      connectorsKids = joinKids (map (\<lambda>d. (fst d, ConnectorDatum (snd d))) (connectors (flatten W p)))
                     (nextId g + length (startPlates (flatten W p))
                        + length (Collections.arrows (flatten W p))) (connectorsKids g),
      nextId = nextId g + length (startPlates (flatten W p))
                 + length (Collections.arrows (flatten W p)) + length (connectors (flatten W p))
                 + length (feets (flatten W p))\<rparr>"
  apply (simp only: manageArrows_def Let_def select_regular[OF assms])
  apply (simp add: joinOn_def joinAt_def)
  done

lemma regular_emptyScene: "regularScene emptyScene"
  by (simp add: regularScene_def regularNodes_def emptyScene_def)

lemma regular_manageArrows:
  assumes "regularScene g" and "classSafe (flatten W p)"
  shows "regularScene (manageArrows W p g)"
  using assms
  by (simp add: manageArrows_regular regularScene_def classSafe_def joinKids_regular list_all_iff)

lemma sceneKeys_regular:
  assumes "regularScene g" and "classSafe (flatten W p)"
  shows "sceneKeys (manageArrows W p g) = collectionKeys (flatten W p)"
proof -
  have r: "regularScene (manageArrows W p g)" using assms by (rule regular_manageArrows)
  have g: "regularNodes (arrowsKids g)" "regularNodes (startPlatesKids g)"
    "regularNodes (feetsKids g)" "regularNodes (connectorsKids g)"
    using assms(1) by (simp_all add: regularScene_def)
  have k: "\<And>n. flatNodes (groupKids n (manageArrows W p g)) = groupKids n (manageArrows W p g)"
    using r by (auto simp: regularScene_def groupKids_def flatNodes_regular split: GroupName.splits)
  show ?thesis
    unfolding sceneKeys_def collectionKeys_def groupKeys_def k
    by (simp add: groupKids_def manageArrows_regular[OF assms(1)] joinKids_keys g comp_def del: set_map)
qed

lemma passExits_regular:
  assumes "regularScene g"
  shows "exitKeys (passExits W p g) =
     (groupKeys StartPlatesGroup g - set (map fst (startPlates (flatten W p))),
      groupKeys ArrowsGroup g - set (map fst (Collections.arrows (flatten W p))),
      groupKeys ConnectorsGroup g - set (map fst (connectors (flatten W p))),
      groupKeys FeetsGroup g - set (map fst (feets (flatten W p))))"
  apply (simp only: passExits_def Let_def select_regular[OF assms])
  apply (auto simp: exitKeys_def exitOn_def joinOn_def joinAt_def selectAllG_def groupKids_def
      groupKeys_def joinExit_def)
  done

lemma list_all_concat_filter:
  "list_all P (concat (map f xs)) \<Longrightarrow> list_all P (concat (map f (filter Q xs)))"
  by (induction xs) auto

lemma classSafe_removeSender:
  assumes "classSafe (flatten W p)"
  shows "classSafe (flatten W (removeSender s p))"
proof -
  have 1: "list_all (\<lambda>d. \<not> groupClass (fst d)) (startPlates (flatten W (removeSender s p)))"
    using assms by (auto simp: classSafe_def flatten_eq removeSender_arrows list_all_iff)
  have 2: "list_all (\<lambda>d. \<not> groupClass (fst d)) (Collections.arrows (flatten W (removeSender s p)))"
    using assms by (simp add: classSafe_def flatten_eq removeSender_arrows list_all_concat_filter)
  have 3: "list_all (\<lambda>d. \<not> groupClass (fst d)) (connectors (flatten W (removeSender s p)))"
    using assms by (simp add: classSafe_def flatten_eq removeSender_arrows list_all_concat_filter)
  have 4: "list_all (\<lambda>d. \<not> groupClass (fst d)) (feets (flatten W (removeSender s p)))"
    using assms by (simp add: classSafe_def flatten_eq removeSender_arrows list_all_concat_filter)
  from 1 2 3 4 show ?thesis by (simp add: classSafe_def)
qed

lemma removed_keys_absent:
  assumes s: "(s, sa) \<in> set (Props.arrows p)"
  shows "s \<notin> set (map fst (startPlates (flatten W (removeSender s p))))"
    and "plainSenders p \<Longrightarrow> (r, ca) \<in> set (SenderArrows.arrows sa) \<Longrightarrow>
           s @ '' -> '' @ r \<notin> set (map fst (Collections.arrows (flatten W (removeSender s p))))"
    and "plainSenders p \<Longrightarrow> (r, ca) \<in> set (SenderArrows.arrows sa) \<Longrightarrow>
           s @ '' -> '' @ r \<notin> set (map fst (connectors (flatten W (removeSender s p))))"
    and "plainSenders p \<Longrightarrow> (r, ca) \<in> set (SenderArrows.arrows sa) \<Longrightarrow>
           s @ '' -> '' @ r @ '' -> '' @ a \<notin> set (map fst (feets (flatten W (removeSender s p))))"
proof -
  show "s \<notin> set (map fst (startPlates (flatten W (removeSender s p))))"
    by (simp add: startPlates_keys removeSender_keys del: set_map)
  show "s @ '' -> '' @ r \<notin> set (map fst (Collections.arrows (flatten W (removeSender s p))))"
    if "plainSenders p" using sender_pair_key_gone[OF that s] .
  then show "s @ '' -> '' @ r \<notin> set (map fst (connectors (flatten W (removeSender s p))))"
    if "plainSenders p" using that by (simp add: arrows_keys connectors_keys)
  show "s @ '' -> '' @ r @ '' -> '' @ a \<notin> set (map fst (feets (flatten W (removeSender s p))))"
    if "plainSenders p" using sender_feet_key_gone[OF that s] .
qed

lemma drawn_keys_present:
  assumes s: "(s, sa) \<in> set (Props.arrows p)"
  shows "s \<in> set (map fst (startPlates (flatten W p)))"
    and "(r, ca) \<in> set (SenderArrows.arrows sa) \<Longrightarrow>
           s @ '' -> '' @ r \<in> set (map fst (Collections.arrows (flatten W p)))"
    and "(r, ca) \<in> set (SenderArrows.arrows sa) \<Longrightarrow>
           s @ '' -> '' @ r \<in> set (map fst (connectors (flatten W p)))"
    and "(r, ca) \<in> set (SenderArrows.arrows sa) \<Longrightarrow> a \<in> set (apIds (connector ca)) \<Longrightarrow>
           apPositions p a \<noteq> None \<Longrightarrow>
           s @ '' -> '' @ r @ '' -> '' @ a \<in> set (map fst (feets (flatten W p)))"
proof -
  show "s \<in> set (map fst (startPlates (flatten W p)))"
    using s by (force simp: startPlates_keys)
  show in1: "s @ '' -> '' @ r \<in> set (map fst (Collections.arrows (flatten W p)))"
    if "(r, ca) \<in> set (SenderArrows.arrows sa)"
    using arrows_member(1)[OF s that, of W] by (force simp: arrowEntry_def)
  then show "s @ '' -> '' @ r \<in> set (map fst (connectors (flatten W p)))"
    if "(r, ca) \<in> set (SenderArrows.arrows sa)"
    using that by (simp add: arrows_keys connectors_keys)
  show "s @ '' -> '' @ r @ '' -> '' @ a \<in> set (map fst (feets (flatten W p)))"
    if "(r, ca) \<in> set (SenderArrows.arrows sa)" "a \<in> set (apIds (connector ca))"
      "apPositions p a \<noteq> None"
  proof -
    from that(3) obtain pos where "apPositions p a = Some pos" by auto
    from feets_member[OF s that(1,2) this, of W] show ?thesis by force
  qed
qed

section \<open>The passes of the examples\<close>

lemma feetsSender_collections:
  "startPlates (flatten 12 feetsSenderProps) = [(''feets'', vzero)]"
  "Collections.arrows (flatten 12 feetsSenderProps)
     = [(''feets -> R'', \<lparr>ArrowData.points = [vzero], handle = None\<rparr>)]"
  "connectors (flatten 12 feetsSenderProps) = [(''feets -> R'', vzero)]"
  "feets (flatten 12 feetsSenderProps) = [(''feets -> R -> A'', (vzero, \<lparr>vx = 1, vy = 1\<rparr>))]"
  by (simp_all add: flatten_eq feetsSenderProps_def plainConnectorArrow_def arrowEntry_def
      connectorEntry_def receiverFeet_def feetEntries_def arrowHandleFromPoints_def)

lemma select_empty:
  "selectClass ''start-plates'' emptyScene = Some (GroupT StartPlatesGroup)"
  "selectClass ''arrows'' emptyScene = Some (GroupT ArrowsGroup)"
  "selectClass ''connectors'' emptyScene = Some (GroupT ConnectorsGroup)"
  "selectClass ''feets'' emptyScene = Some (GroupT FeetsGroup)"
  by (simp_all add: selectClass_def docOrder_def emptyScene_def flatNodes_def isWs_def)

lemma pass1: "manageArrows 12 feetsSenderProps emptyScene = feetsScene1"
  apply (simp only: manageArrows_def Let_def select_empty feetsSender_collections)
  apply (simp add: joinOn_def joinAt_def joinKids_def joinEnter_def flatNodes_def emptyScene_def
      feetsScene1_def eval_nat_numeral)
  done

lemma select_feetsScene1:
  "selectClass ''start-plates'' feetsScene1 = Some (GroupT StartPlatesGroup)"
  "selectClass ''arrows'' feetsScene1 = Some (GroupT ArrowsGroup)"
  "selectClass ''connectors'' feetsScene1 = Some (GroupT ConnectorsGroup)"
  "selectClass ''feets'' feetsScene1 = Some (NodeT 1)"
  by (simp_all add: selectClass_def docOrder_def feetsScene1_def flatNodes_def isWs_def)

lemma pass2: "manageArrows 12 feetsSenderProps feetsScene1 = feetsScene2"
  apply (simp only: manageArrows_def Let_def select_feetsScene1 feetsSender_collections)
  apply (simp add: joinOn_def joinAt_def joinKids_def joinEnter_def flatNodes_def
      feetsScene1_def feetsScene2_def eval_nat_numeral)
  done

lemma wf_feetsSenderProps: "wfProps feetsSenderProps \<and> plainSenders feetsSenderProps \<and> plainReceivers feetsSenderProps"
  by (simp add: wfProps_def wfSenderArrows_def wfConnectorArrow_def plainSenders_def
      plainReceivers_def feetsSenderProps_def plainConnectorArrow_def)

lemma sceneKeys_feetsScenes:
  "sceneKeys feetsScene1 = ({''feets''}, {''feets -> R''}, {''feets -> R''}, {''feets -> R -> A''})"
  "sceneKeys feetsScene2 =
     ({''feets''}, {''feets -> R'', ''feets -> R -> A''}, {''feets -> R''}, {''feets -> R -> A''})"
  by (simp_all add: sceneKeys_def groupKeys_def groupKids_def flatNodes_def feetsScene1_def
      feetsScene2_def)

lemma classSafe_sampleProps: "classSafe (flatten 12 sampleProps)"
  by (simp add: classSafe_def flatten_eq sampleProps_def sampleSenderArrows_def
      sampleConnectorArrow_def arrowEntry_def connectorEntry_def receiverFeet_def feetEntries_def
      groupClass_def isWs_def)

lemma collectionKeys_sampleProps:
  "collectionKeys (flatten 12 sampleProps) = ({''S'', ''T''}, {''S -> R''}, {''S -> R''}, {''S -> R -> A''})"
  by (simp add: collectionKeys_def startPlates_keys arrows_keys connectors_keys feets_keys
      sampleProps_def sampleSenderArrows_def sampleConnectorArrow_def)

lemma classSafe_collidingProps: "classSafe (flatten 12 collidingProps)"
  by (simp add: classSafe_def flatten_eq collidingProps_def plainConnectorArrow_def
      arrowEntry_def connectorEntry_def receiverFeet_def feetEntries_def groupClass_def isWs_def)

lemma flatten_removed_feets:
  "flatten 12 (removeSender ''feets'' feetsSenderProps) = emptyCollections"
  by (simp add: flatten_eq removeSender_arrows feetsSenderProps_def emptyCollections_def)

lemma pass_removed_feets:
  "manageArrows 12 (removeSender ''feets'' feetsSenderProps) feetsScene1 =
     \<lparr>arrowsKids = [], startPlatesKids = [],
      feetsKids = [GNode 3 ''feets -> R -> A'' (FeetDatum (vzero, \<lparr>vx = 1, vy = 1\<rparr>)) []],
      connectorsKids = [], nextId = 4\<rparr>"
  apply (simp only: manageArrows_def Let_def select_feetsScene1 flatten_removed_feets)
  apply (simp add: joinOn_def joinAt_def joinKids_def joinEnter_def flatNodes_def
      feetsScene1_def emptyCollections_def)
  done

lemma platesSender_collections:
  "flatten 12 platesSenderProps =
     \<lparr>startPlates = [(''x'', vzero), (''start-plates'', vzero)],
      Collections.arrows = [(''start-plates -> R'', \<lparr>ArrowData.points = [vzero], handle = None\<rparr>)],
      connectors = [(''start-plates -> R'', vzero)],
      feets = []\<rparr>"
  "flatten 12 (removeSender ''x'' platesSenderProps) =
     \<lparr>startPlates = [(''start-plates'', vzero)],
      Collections.arrows = [(''start-plates -> R'', \<lparr>ArrowData.points = [vzero], handle = None\<rparr>)],
      connectors = [(''start-plates -> R'', vzero)],
      feets = []\<rparr>"
  by (simp_all add: flatten_eq removeSender_arrows platesSenderProps_def plainConnectorArrow_def
      arrowEntry_def connectorEntry_def receiverFeet_def feetEntries_def arrowHandleFromPoints_def)

lemma plates_pass1: "manageArrows 12 platesSenderProps emptyScene = platesScene1"
  apply (simp only: manageArrows_def Let_def select_empty platesSender_collections)
  apply (simp add: joinOn_def joinAt_def joinKids_def joinEnter_def flatNodes_def emptyScene_def
      platesScene1_def eval_nat_numeral)
  done

lemma select_platesScene1:
  "selectClass ''start-plates'' platesScene1 = Some (NodeT 2)"
  "selectClass ''arrows'' platesScene1 = Some (GroupT ArrowsGroup)"
  "selectClass ''connectors'' platesScene1 = Some (GroupT ConnectorsGroup)"
  "selectClass ''feets'' platesScene1 = Some (GroupT FeetsGroup)"
  by (simp_all add: selectClass_def docOrder_def platesScene1_def flatNodes_def isWs_def)

lemma plates_pass2:
  "manageArrows 12 (removeSender ''x'' platesSenderProps) platesScene1 =
     \<lparr>arrowsKids = [GNode 2 ''start-plates -> R''
                      (ArrowDatum \<lparr>ArrowData.points = [vzero], handle = None\<rparr>) []],
      startPlatesKids = [GNode 0 ''x'' (PlateDatum vzero) [],
                         GNode 1 ''start-plates'' (PlateDatum vzero) []],
      feetsKids = [],
      connectorsKids = [GNode 3 ''start-plates -> R'' (ConnectorDatum vzero) []],
      nextId = 7\<rparr>"
  apply (simp only: manageArrows_def Let_def select_platesScene1 platesSender_collections)
  apply (simp add: joinOn_def joinAt_def joinKids_def joinEnter_def flatNodes_def
      platesScene1_def eval_nat_numeral)
  done

section \<open>Claims about a pass\<close>

text \<open>
  Against C8 as it is written: the sender id of \<open>feetsSenderProps\<close> is \<open>feets\<close>, so the
  first pass draws an arrow node of class \<open>feets -> R\<close> in the arrows group, which comes
  first in the document. In the second pass, with the same props, the selector
  \<open>.feets\<close> finds this node and not the feets group, the feet node is created inside it,
  and the arrows group has the key \<open>feets -> R -> A\<close> that it did not have before.
\<close>

theorem second_pass_changes_keys_counterexample:
  "wfProps feetsSenderProps \<and>
   sceneKeys (manageArrows 12 feetsSenderProps emptyScene)
     = ({''feets''}, {''feets -> R''}, {''feets -> R''}, {''feets -> R -> A''}) \<and>
   sceneKeys (manageArrows 12 feetsSenderProps (manageArrows 12 feetsSenderProps emptyScene))
     = ({''feets''}, {''feets -> R'', ''feets -> R -> A''}, {''feets -> R''}, {''feets -> R -> A''}) \<and>
   sceneKeys (manageArrows 12 feetsSenderProps (manageArrows 12 feetsSenderProps emptyScene))
     \<noteq> sceneKeys (manageArrows 12 feetsSenderProps emptyScene)"
  by (simp add: wf_feetsSenderProps pass1 pass2 sceneKeys_feetsScenes)

text \<open>
  C8, amended. For every input none of whose keys has \<open>start-plates\<close>, \<open>feets\<close> or
  \<open>connectors\<close> among the tokens of its class, and every regular scene (the scene of
  four empty groups is one, and a pass with such an input leaves one): a pass on the
  scene that a pass with the same props left gives the same set of keys in each of
  the four groups as the first pass; these are the keys of the four flattened
  collections.
\<close>

theorem pass_idempotent_keys:
  assumes "regularScene g" and "classSafe (flatten W p)"
  shows "sceneKeys (manageArrows W p (manageArrows W p g)) = sceneKeys (manageArrows W p g)
         \<and> sceneKeys (manageArrows W p g) = collectionKeys (flatten W p)"
proof -
  have r: "regularScene (manageArrows W p g)" using assms by (rule regular_manageArrows)
  have 1: "sceneKeys (manageArrows W p g) = collectionKeys (flatten W p)"
    using assms by (rule sceneKeys_regular)
  have 2: "sceneKeys (manageArrows W p (manageArrows W p g)) = collectionKeys (flatten W p)"
    using r assms(2) by (rule sceneKeys_regular)
  from 1 2 show ?thesis by simp
qed

theorem pass_idempotent_keys_witness:
  "regularScene emptyScene \<and> classSafe (flatten 12 sampleProps) \<and>
   sceneKeys (manageArrows 12 sampleProps (manageArrows 12 sampleProps emptyScene))
     = ({''S'', ''T''}, {''S -> R''}, {''S -> R''}, {''S -> R -> A''})"
  using pass_idempotent_keys [OF regular_emptyScene classSafe_sampleProps]
    regular_emptyScene classSafe_sampleProps
  by (simp add: collectionKeys_sampleProps)

text \<open>
  Against C9 as it is written, twice. Sender \<open>a\<close> of \<open>collidingProps\<close> has the arrow keyed
  \<open>a -> b -> c\<close>; after \<open>a\<close> is removed, the next pass still leaves a node with this
  key in the arrows group, for sender \<open>a -> b\<close> with receiver \<open>c\<close>. Sender \<open>feets\<close> of
  \<open>feetsSenderProps\<close> has the feet entry keyed \<open>feets -> R -> A\<close>; after \<open>feets\<close> is
  removed, the selector \<open>.feets\<close> of the next pass finds the arrow node of class
  \<open>feets -> R\<close>, the feets group is not joined, and the feet node stays.
\<close>

theorem removed_sender_key_stays_counterexample:
  "(''a'', \<lparr>startPoint = vzero, SenderArrows.arrows = [(''b -> c'', plainConnectorArrow [])]\<rparr>)
      \<in> set (Props.arrows collidingProps) \<and>
   ''a'' \<notin> set (map fst (Props.arrows (removeSender ''a'' collidingProps))) \<and>
   ''a'' @ '' -> '' @ ''b -> c''
      \<in> groupKeys ArrowsGroup (manageArrows 12 (removeSender ''a'' collidingProps)
                                  (manageArrows 12 collidingProps emptyScene)) \<and>
   (''feets'', \<lparr>startPoint = vzero, SenderArrows.arrows = [(''R'', plainConnectorArrow [''A''])]\<rparr>)
      \<in> set (Props.arrows feetsSenderProps) \<and>
   plainSenders feetsSenderProps \<and>
   ''feets'' \<notin> set (map fst (Props.arrows (removeSender ''feets'' feetsSenderProps))) \<and>
   ''feets'' @ '' -> '' @ ''R'' @ '' -> '' @ ''A''
      \<in> groupKeys FeetsGroup (manageArrows 12 (removeSender ''feets'' feetsSenderProps)
                                 (manageArrows 12 feetsSenderProps emptyScene))"
proof -
  have r1: "regularScene (manageArrows 12 collidingProps emptyScene)"
    using regular_emptyScene classSafe_collidingProps by (rule regular_manageArrows)
  have "sceneKeys (manageArrows 12 (removeSender ''a'' collidingProps)
                     (manageArrows 12 collidingProps emptyScene))
          = collectionKeys (flatten 12 (removeSender ''a'' collidingProps))"
    using r1 classSafe_removeSender[OF classSafe_collidingProps] by (rule sceneKeys_regular)
  then have a: "''a'' @ '' -> '' @ ''b -> c''
      \<in> groupKeys ArrowsGroup (manageArrows 12 (removeSender ''a'' collidingProps)
                                  (manageArrows 12 collidingProps emptyScene))"
    by (simp add: sceneKeys_def collectionKeys_def arrows_keys removeSender_arrows collidingProps_def)
  have b: "''feets'' @ '' -> '' @ ''R'' @ '' -> '' @ ''A''
      \<in> groupKeys FeetsGroup (manageArrows 12 (removeSender ''feets'' feetsSenderProps)
                                 (manageArrows 12 feetsSenderProps emptyScene))"
    by (simp add: pass1 pass_removed_feets groupKeys_def groupKids_def flatNodes_def)
  show ?thesis
    using a b wf_feetsSenderProps
    by (simp add: removeSender_arrows collidingProps_def feetsSenderProps_def del: append.simps)
qed

text \<open>
  C9, amended. When a sender \<open>s\<close> that was present is removed from the arrows map:
  for every input, the next flatten step yields no start-plate keyed \<open>s\<close>; if no sender
  id contains \<open>->\<close>, it yields, for every receiver \<open>r\<close> of \<open>s\<close> and every access point
  \<open>a\<close> of its connector, no arrow and no connector keyed \<open>s -> r\<close> and no feet entry
  keyed \<open>s -> r -> a\<close>. If moreover the scene before the previous pass is regular and
  no key of the previous input has \<open>start-plates\<close>, \<open>feets\<close> or \<open>connectors\<close> among
  the tokens of its class, the next pass leaves none of these keys in its group, and
  each of them that the previous pass had drawn is among the nodes that the join of
  its group removes.
\<close>

theorem removed_sender_entries_exit:
  fixes W :: real and p :: Props and g :: Scene and s :: string and sa :: SenderArrows
  assumes "(s, sa) \<in> set (Props.arrows p)"
  defines "c \<equiv> flatten W (removeSender s p)"
    and "g1 \<equiv> manageArrows W p g"
  defines "g2 \<equiv> manageArrows W (removeSender s p) g1"
    and "x \<equiv> exitKeys (passExits W (removeSender s p) g1)"
  shows "s \<notin> set (map fst (startPlates c)) \<and>
         (plainSenders p \<longrightarrow>
            (\<forall>(r, ca) \<in> set (SenderArrows.arrows sa).
               s @ '' -> '' @ r \<notin> set (map fst (Collections.arrows c)) \<and>
               s @ '' -> '' @ r \<notin> set (map fst (connectors c)) \<and>
               (\<forall>a \<in> set (apIds (connector ca)).
                  s @ '' -> '' @ r @ '' -> '' @ a \<notin> set (map fst (feets c))))) \<and>
         (regularScene g \<and> classSafe (flatten W p) \<longrightarrow>
            s \<notin> groupKeys StartPlatesGroup g2 \<and> s \<in> fst x \<and>
            (plainSenders p \<longrightarrow>
               (\<forall>(r, ca) \<in> set (SenderArrows.arrows sa).
                  s @ '' -> '' @ r \<notin> groupKeys ArrowsGroup g2 \<and>
                  s @ '' -> '' @ r \<in> fst (snd x) \<and>
                  s @ '' -> '' @ r \<notin> groupKeys ConnectorsGroup g2 \<and>
                  s @ '' -> '' @ r \<in> fst (snd (snd x)) \<and>
                  (\<forall>a \<in> set (apIds (connector ca)).
                     s @ '' -> '' @ r @ '' -> '' @ a \<notin> groupKeys FeetsGroup g2 \<and>
                     (apPositions p a \<noteq> None \<longrightarrow>
                        s @ '' -> '' @ r @ '' -> '' @ a \<in> snd (snd (snd x)))))))"
proof (intro conjI impI)
  show "s \<notin> set (map fst (startPlates c))"
    unfolding c_def using removed_keys_absent(1)[OF assms(1)] .
next
  assume ps: "plainSenders p"
  show "\<forall>(r, ca) \<in> set (SenderArrows.arrows sa).
               s @ '' -> '' @ r \<notin> set (map fst (Collections.arrows c)) \<and>
               s @ '' -> '' @ r \<notin> set (map fst (connectors c)) \<and>
               (\<forall>a \<in> set (apIds (connector ca)).
                  s @ '' -> '' @ r @ '' -> '' @ a \<notin> set (map fst (feets c)))"
    unfolding c_def
    using removed_keys_absent(2)[OF assms(1) ps] removed_keys_absent(3)[OF assms(1) ps]
      removed_keys_absent(4)[OF assms(1) ps]
    by blast
next
  assume h: "regularScene g \<and> classSafe (flatten W p)"
  then have rg: "regularScene g" and cs: "classSafe (flatten W p)" by simp_all
  have r1: "regularScene g1" unfolding g1_def using rg cs by (rule regular_manageArrows)
  have k1: "sceneKeys g1 = collectionKeys (flatten W p)"
    unfolding g1_def using rg cs by (rule sceneKeys_regular)
  have k2: "sceneKeys g2 = collectionKeys c"
    unfolding g2_def c_def using r1 classSafe_removeSender[OF cs] by (rule sceneKeys_regular)
  have xk: "x = (groupKeys StartPlatesGroup g1 - set (map fst (startPlates c)),
      groupKeys ArrowsGroup g1 - set (map fst (Collections.arrows c)),
      groupKeys ConnectorsGroup g1 - set (map fst (connectors c)),
      groupKeys FeetsGroup g1 - set (map fst (feets c)))"
    unfolding x_def c_def using r1 by (rule passExits_regular)
  have g1k: "groupKeys StartPlatesGroup g1 = set (map fst (startPlates (flatten W p)))"
    "groupKeys ArrowsGroup g1 = set (map fst (Collections.arrows (flatten W p)))"
    "groupKeys ConnectorsGroup g1 = set (map fst (connectors (flatten W p)))"
    "groupKeys FeetsGroup g1 = set (map fst (feets (flatten W p)))"
    using k1 by (simp_all add: sceneKeys_def collectionKeys_def del: set_map)
  have g2k: "groupKeys StartPlatesGroup g2 = set (map fst (startPlates c))"
    "groupKeys ArrowsGroup g2 = set (map fst (Collections.arrows c))"
    "groupKeys ConnectorsGroup g2 = set (map fst (connectors c))"
    "groupKeys FeetsGroup g2 = set (map fst (feets c))"
    using k2 by (simp_all add: sceneKeys_def collectionKeys_def del: set_map)
  have a1: "s \<notin> set (map fst (startPlates c))"
    unfolding c_def using removed_keys_absent(1)[OF assms(1)] .
  show "s \<notin> groupKeys StartPlatesGroup g2" unfolding g2k(1) by (rule a1)
  show "s \<in> fst x"
    using a1 drawn_keys_present(1)[OF assms(1), of W] by (simp add: xk g1k del: set_map)
  assume ps: "plainSenders p"
  show "\<forall>(r, ca) \<in> set (SenderArrows.arrows sa).
                  s @ '' -> '' @ r \<notin> groupKeys ArrowsGroup g2 \<and>
                  s @ '' -> '' @ r \<in> fst (snd x) \<and>
                  s @ '' -> '' @ r \<notin> groupKeys ConnectorsGroup g2 \<and>
                  s @ '' -> '' @ r \<in> fst (snd (snd x)) \<and>
                  (\<forall>a \<in> set (apIds (connector ca)).
                     s @ '' -> '' @ r @ '' -> '' @ a \<notin> groupKeys FeetsGroup g2 \<and>
                     (apPositions p a \<noteq> None \<longrightarrow>
                        s @ '' -> '' @ r @ '' -> '' @ a \<in> snd (snd (snd x))))"
  proof (intro ballI, clarify)
    fix r ca assume rc: "(r, ca) \<in> set (SenderArrows.arrows sa)"
    have o1: "s @ '' -> '' @ r \<notin> set (map fst (Collections.arrows c))"
      unfolding c_def using removed_keys_absent(2)[OF assms(1) ps rc] .
    have o2: "s @ '' -> '' @ r \<notin> set (map fst (connectors c))"
      unfolding c_def using removed_keys_absent(3)[OF assms(1) ps rc] .
    have o3: "\<And>a. s @ '' -> '' @ r @ '' -> '' @ a \<notin> set (map fst (feets c))"
      unfolding c_def using removed_keys_absent(4)[OF assms(1) ps rc] .
    have i1: "s @ '' -> '' @ r \<in> set (map fst (Collections.arrows (flatten W p)))"
      using drawn_keys_present(2)[OF assms(1) rc] .
    have i2: "s @ '' -> '' @ r \<in> set (map fst (connectors (flatten W p)))"
      using drawn_keys_present(3)[OF assms(1) rc] .
    have i3: "\<And>a. a \<in> set (apIds (connector ca)) \<Longrightarrow> apPositions p a \<noteq> None \<Longrightarrow>
        s @ '' -> '' @ r @ '' -> '' @ a \<in> set (map fst (feets (flatten W p)))"
      using drawn_keys_present(4)[OF assms(1) rc] .
    show "s @ '' -> '' @ r \<notin> groupKeys ArrowsGroup g2 \<and>
                  s @ '' -> '' @ r \<in> fst (snd x) \<and>
                  s @ '' -> '' @ r \<notin> groupKeys ConnectorsGroup g2 \<and>
                  s @ '' -> '' @ r \<in> fst (snd (snd x)) \<and>
                  (\<forall>a \<in> set (apIds (connector ca)).
                     s @ '' -> '' @ r @ '' -> '' @ a \<notin> groupKeys FeetsGroup g2 \<and>
                     (apPositions p a \<noteq> None \<longrightarrow>
                        s @ '' -> '' @ r @ '' -> '' @ a \<in> snd (snd (snd x))))"
      using o1 o2 o3 i1 i2 i3 by (simp add: xk g1k g2k del: set_map)
  qed
qed

theorem removed_sender_entries_exit_witness:
  "(''S'', sampleSenderArrows) \<in> set (Props.arrows sampleProps) \<and>
   plainSenders sampleProps \<and> regularScene emptyScene \<and> classSafe (flatten 12 sampleProps) \<and>
   ''S'' \<notin> set (map fst (startPlates (flatten 12 (removeSender ''S'' sampleProps)))) \<and>
   ''S'' \<notin> groupKeys StartPlatesGroup
       (manageArrows 12 (removeSender ''S'' sampleProps) (manageArrows 12 sampleProps emptyScene)) \<and>
   ''S -> R'' \<notin> groupKeys ArrowsGroup
       (manageArrows 12 (removeSender ''S'' sampleProps) (manageArrows 12 sampleProps emptyScene)) \<and>
   ''S -> R'' \<notin> groupKeys ConnectorsGroup
       (manageArrows 12 (removeSender ''S'' sampleProps) (manageArrows 12 sampleProps emptyScene)) \<and>
   ''S -> R -> A'' \<notin> groupKeys FeetsGroup
       (manageArrows 12 (removeSender ''S'' sampleProps) (manageArrows 12 sampleProps emptyScene)) \<and>
   ''S -> R -> A'' \<in> snd (snd (snd (exitKeys
       (passExits 12 (removeSender ''S'' sampleProps) (manageArrows 12 sampleProps emptyScene)))))"
  using removed_sender_entries_exit [OF sample_members(1), of 12 emptyScene]
    conjunct1[OF plain_sampleProps] regular_emptyScene classSafe_sampleProps sample_members
  by (simp add: sampleSenderArrows_def sampleConnectorArrow_def)

text \<open>
  The condition on the classes is needed for the start-plate as well: with a second
  sender whose id is \<open>start-plates\<close> and who has a receiver, the selector
  \<open>.start-plates\<close> of the next pass finds the arrow node of class \<open>start-plates -> R\<close>,
  the start-plates group is not joined, and the start-plate of the removed sender \<open>x\<close>
  stays.
\<close>

lemma start_plate_stays_behind_class_lookup:
  "plainSenders platesSenderProps \<and>
   ''x'' \<in> groupKeys StartPlatesGroup
      (manageArrows 12 (removeSender ''x'' platesSenderProps)
         (manageArrows 12 platesSenderProps emptyScene))"
proof
  show "plainSenders platesSenderProps"
    by (simp add: plainSenders_def platesSenderProps_def)
  show "''x'' \<in> groupKeys StartPlatesGroup
      (manageArrows 12 (removeSender ''x'' platesSenderProps)
         (manageArrows 12 platesSenderProps emptyScene))"
    by (simp add: plates_pass1 plates_pass2 groupKeys_def groupKids_def flatNodes_def)
qed

section \<open>Claims about the access-point badge\<close>

lemma hasTestId_AccessPoint:
  "hasTestId t (AccessPoint enums props) \<longleftrightarrow>
     list_ex (hasTestId t) (portPart enums props) \<or> t = ''proto-l4'' \<or>
     list_ex (hasTestId t) (l7Part enums props)"
  by (auto simp: AccessPoint_def)

text \<open>
  C6. For every props value the rendered tree holds the port element if and only if
  the L4 protocol is neither ICMPv4 nor ICMPv6.
\<close>

theorem port_rendered_iff_not_icmp:
  "hasTestId ''port'' (AccessPoint enums props) \<longleftrightarrow>
     l4Protocol props \<noteq> ICMPv4 enums \<and> l4Protocol props \<noteq> ICMPv6 enums"
  by (auto simp: hasTestId_AccessPoint portPart_def showPort_def l7Part_def
      split: option.splits EnumValue.splits)

theorem port_rendered_iff_not_icmp_witness:
  "hasTestId ''port'' (AccessPoint sampleEnums \<lparr>port = 80, l4Protocol = NumV 1, l7Protocol = None\<rparr>) \<and>
   \<not> hasTestId ''port'' (AccessPoint sampleEnums \<lparr>port = 0, l4Protocol = NumV 3, l7Protocol = None\<rparr>) \<and>
   \<not> hasTestId ''port'' (AccessPoint sampleEnums \<lparr>port = 0, l4Protocol = NumV 4, l7Protocol = None\<rparr>)"
  using port_rendered_iff_not_icmp [of sampleEnums "\<lparr>port = 80, l4Protocol = NumV 1, l7Protocol = None\<rparr>"]
    port_rendered_iff_not_icmp [of sampleEnums "\<lparr>port = 0, l4Protocol = NumV 3, l7Protocol = None\<rparr>"]
    port_rendered_iff_not_icmp [of sampleEnums "\<lparr>port = 0, l4Protocol = NumV 4, l7Protocol = None\<rparr>"]
  by (simp add: sampleEnums_def)




text \<open>
  For an enum whose members other than the sentinel are truthy, the label is drawn
  exactly for a defined member that is not the sentinel.
\<close>

lemma l7_label_for_truthy_members:
  assumes "\<forall>v. l7Protocol props = Some v \<and> v \<noteq> Unknown enums \<longrightarrow> truthy v"
  shows "hasTestId ''proto-l7'' (AccessPoint enums props) \<longleftrightarrow>
     l7Protocol props \<noteq> None \<and> l7Protocol props \<noteq> Some (Unknown enums)"
  using assms by (auto simp: hasTestId_AccessPoint portPart_def showL7Protocol_def l7Part_def
      split: option.splits EnumValue.splits)

end
